theory Spec2Isabelle
  imports Main "HOL-Library.Multiset" "HOL-Library.List_Lexorder" "HOL-Library.Char_ord"
begin

section \<open>Object storage client: multipart completion (services/s3Services)\<close>

text \<open>
  Source: \<^verbatim>\<open>src/backend/src/routes/folderRoutes.js\<close>, lines 247-359 (client version 2) and
  359-488 (client version 3); \<^verbatim>\<open>completeMultipart\<close> and \<^verbatim>\<open>abortMultipart\<close> are the same
  in both.

  A part as the client reports it: \<^verbatim>\<open>{ partNumber, eTag }\<close>. Part numbers are integers
  (the request schema admits only integers from 1 up), so the comparator
  \<^verbatim>\<open>(a, b) => a.partNumber - b.partNumber\<close> orders two parts as their part numbers are
  ordered and answers 0 exactly for equal part numbers.
\<close>

record part =
  partNumber :: int
  eTag :: string

text \<open>An entry of \<^verbatim>\<open>MultipartUpload.Parts\<close> and the assembly command sent to the backend.\<close>

record s3_part =
  ETag :: string
  PartNumber :: int

record complete_command =
  Bucket :: string
  Key :: string
  UploadId :: string
  Parts :: "s3_part list"

text \<open>
  JavaScript arrays are objects: the callee receives a reference to the caller's array.
  The store maps a reference to the array's current contents.
\<close>

type_synonym ref = nat
type_synonym store = "ref \<Rightarrow> part list"

text \<open>
  \<^verbatim>\<open>parts.sort((a, b) => a.partNumber - b.partNumber)\<close>. \<^verbatim>\<open>Array.prototype.sort\<close> is
  stable: elements the comparator calls equal keep their relative order. On a list that is
  the stable insertion sort by the key \<^verbatim>\<open>partNumber\<close>.
\<close>

definition sort_parts :: "part list \<Rightarrow> part list" where
  "sort_parts ps = sort_key partNumber ps"

text \<open>\<^verbatim>\<open>sorted.map(p => ({ ETag: p.eTag, PartNumber: p.partNumber }))\<close>.\<close>

definition to_s3_part :: "part \<Rightarrow> s3_part" where
  "to_s3_part p = \<lparr>ETag = eTag p, PartNumber = partNumber p\<rparr>"

text \<open>
  \<^verbatim>\<open>completeMultipart({ key, uploadId, parts })\<close> up to the point where the command is handed
  to the client. \<^verbatim>\<open>sort\<close> sorts the array in place and returns the same array, so
  \<^verbatim>\<open>sorted\<close> and \<^verbatim>\<open>parts\<close> are one reference; the store is updated at that reference and
  the command is built from the array read back through it. The bucket name comes from the
  process environment and is a parameter.
\<close>

definition completeMultipart_command ::
  "string \<Rightarrow> store \<Rightarrow> string \<Rightarrow> string \<Rightarrow> ref \<Rightarrow> store \<times> complete_command" where
  "completeMultipart_command BUCKET h key uploadId parts =
     (let h' = h(parts := sort_parts (h parts));
          sorted = parts
      in (h', \<lparr>Bucket = BUCKET, Key = key, UploadId = uploadId,
               Parts = map to_s3_part (h' sorted)\<rparr>))"

text \<open>A store in which every array is empty.\<close>

definition empty_store :: store where
  "empty_store = (\<lambda>r. [])"

section \<open>Metadata store (Prisma migrations)\<close>

text \<open>
  Source: the migrations \<^verbatim>\<open>src/unnamed/part_003\<close> (tables \<^verbatim>\<open>File\<close> and \<^verbatim>\<open>Activity\<close>, the
  unique index on \<^verbatim>\<open>s3Key\<close>) and \<^verbatim>\<open>src/unnamed/part_002\<close> (column \<^verbatim>\<open>deletedAt\<close>, table
  \<^verbatim>\<open>DeletionActivity\<close> and its foreign key). The operations of the Prisma client are
  modelled on the tables as lists; an operation fails for the reasons the schema gives (no
  matching row, a violated constraint) and for no other.
\<close>

text \<open>Timestamps are milliseconds since the epoch (the value of a JavaScript \<^verbatim>\<open>Date\<close>).\<close>

type_synonym timestamp = int

text \<open>
  A row of table \<^verbatim>\<open>File\<close>, with the columns of the two migrations that create and alter it
  (\<^verbatim>\<open>createdAt\<close> and \<^verbatim>\<open>updatedAt\<close>, which no function below reads, are left out).
  Column \<^verbatim>\<open>id\<close> is \<open>file_id\<close> and column \<^verbatim>\<open>size\<close> is \<open>size_bytes\<close>.
\<close>

record file_row =
  file_id :: string
  s3Key :: string
  fileName :: string
  mimeType :: string
  size_bytes :: int
  isEncrypted :: bool
  encryptedKeyMetadata :: "string option"
  expiry :: "timestamp option"
  uploadStatus :: string
  ownerId :: string
  folderId :: "string option"
  deletedAt :: "timestamp option"

datatype DeletionStatus = SUCCESS_SOFT_DELETE | SUCCESS_HARD_DELETE | FAILED_S3 | FAILED_DB

text \<open>
  A row of table \<^verbatim>\<open>DeletionActivity\<close> as \<^verbatim>\<open>logDeletionActivity\<close> writes it (the generated
  columns \<^verbatim>\<open>id\<close> and \<^verbatim>\<open>deletedAt\<close> are left out; the table is a list in insertion order).
\<close>

record deletion_activity =
  da_fileId :: string
  da_userId :: "string option"
  da_s3Key :: string
  da_fileName :: string
  da_reason :: string
  da_status :: DeletionStatus
  da_error :: "string option"

text \<open>A row of table \<^verbatim>\<open>Activity\<close> as the upload controller writes it.\<close>

record activity =
  act_type :: string
  act_message :: string
  act_userId :: "string option"
  act_fileId :: "string option"
  act_size :: int

text \<open>
  What a rejected promise carries: a Prisma request error with its \<^verbatim>\<open>code\<close>, or a plain
  \<^verbatim>\<open>Error\<close>; both have a \<^verbatim>\<open>message\<close>.
\<close>

datatype js_error = PrismaError string string | Error string

fun code :: "js_error \<Rightarrow> string option" where
  "code (PrismaError c m) = Some c"
| "code (Error m) = None"

fun message :: "js_error \<Rightarrow> string" where
  "message (PrismaError c m) = m"
| "message (Error m) = m"

definition P2025 :: js_error where
  "P2025 = PrismaError ''P2025'' ''Record not found''"

definition P2003 :: js_error where
  "P2003 = PrismaError ''P2003'' ''Foreign key constraint failed''"

definition P2002 :: js_error where
  "P2002 = PrismaError ''P2002'' ''Unique constraint failed''"

text \<open>The commands the two services send to the storage backend.\<close>

datatype s3_command =
    DeleteObjects "string list"
  | CompleteMultipartUpload complete_command
  | AbortMultipartUpload string string

text \<open>
  The state the services work on: the three tables, the bucket (the keys of the objects it
  holds), the commands sent to the storage backend so far (oldest first), and the time
  spent in retry delays.
\<close>

record world =
  files :: "file_row list"
  deletionActivities :: "deletion_activity list"
  activities :: "activity list"
  objects :: "string list"
  s3_sent :: "s3_command list"
  slept_ms :: nat

text \<open>
  \<^verbatim>\<open>prisma.file.findMany({ where, take, orderBy: { id: 'asc' } })\<close>: the rows that satisfy
  the condition, in ascending order of \<^verbatim>\<open>id\<close>, cut to the first \<open>n\<close>.
\<close>

definition file_findMany :: "(file_row \<Rightarrow> bool) \<Rightarrow> nat \<Rightarrow> world \<Rightarrow> file_row list" where
  "file_findMany cond n w = take n (sort_key file_id (filter cond (files w)))"

text \<open>
  \<^verbatim>\<open>prisma.file.update({ where: { id, deletedAt: null }, data: { deletedAt: now } })\<close>: the
  row with this id is updated if its \<^verbatim>\<open>deletedAt\<close> is null; when no row matches, the call
  rejects with P2025.
\<close>

definition file_update_deletedAt :: "string \<Rightarrow> timestamp \<Rightarrow> world \<Rightarrow> js_error + world" where
  "file_update_deletedAt i now w =
     (if list_ex (\<lambda>f. file_id f = i \<and> deletedAt f = None) (files w)
      then Inr (w\<lparr>files := map (\<lambda>f. if file_id f = i \<and> deletedAt f = None
                                     then f\<lparr>deletedAt := Some now\<rparr> else f) (files w)\<rparr>)
      else Inl P2025)"

text \<open>
  \<^verbatim>\<open>prisma.file.delete({ where: { id } })\<close>. No row: P2025. The constraint
  \<^verbatim>\<open>DeletionActivity_fileId_fkey\<close> (\<^verbatim>\<open>FOREIGN KEY ("fileId") REFERENCES "File"("id") ON
  DELETE NO ACTION\<close>) rejects the delete with P2003 while a \<^verbatim>\<open>DeletionActivity\<close> row refers
  to the file. \<^verbatim>\<open>Activity_fileId_fkey\<close> is \<^verbatim>\<open>ON DELETE SET NULL\<close>: the activities of the
  file lose their reference. Table \<^verbatim>\<open>Comment\<close>, whose \<^verbatim>\<open>Comment_fileId_fkey\<close> is
  \<^verbatim>\<open>ON DELETE RESTRICT\<close>, is not part of the state: the files here have no comments.
\<close>

definition file_delete :: "string \<Rightarrow> world \<Rightarrow> js_error + world" where
  "file_delete i w =
     (if \<not> list_ex (\<lambda>f. file_id f = i) (files w) then Inl P2025
      else if list_ex (\<lambda>a. da_fileId a = i) (deletionActivities w) then Inl P2003
      else Inr (w\<lparr>files := filter (\<lambda>f. file_id f \<noteq> i) (files w),
                  activities := map (\<lambda>a. if act_fileId a = Some i
                                           then a\<lparr>act_fileId := None\<rparr> else a) (activities w)\<rparr>))"

text \<open>
  \<^verbatim>\<open>prisma.deletionActivity.create({ data })\<close>. Column \<^verbatim>\<open>fileId\<close> is \<^verbatim>\<open>NOT NULL\<close> and
  refers to \<^verbatim>\<open>File(id)\<close>: the insert is rejected with P2003 when no such file row exists.
\<close>

definition deletionActivity_create :: "deletion_activity \<Rightarrow> world \<Rightarrow> js_error + world" where
  "deletionActivity_create a w =
     (if list_ex (\<lambda>f. file_id f = da_fileId a) (files w)
      then Inr (w\<lparr>deletionActivities := deletionActivities w @ [a]\<rparr>)
      else Inl P2003)"

section \<open>Cleanup service\<close>

text \<open>Source: \<^verbatim>\<open>src/backend/src/routes/folderRoutes.js\<close>, lines 17-246.\<close>

definition BATCH_SIZE :: nat where "BATCH_SIZE = 100"
definition RETRY_ATTEMPTS :: nat where "RETRY_ATTEMPTS = 3"
definition RETRY_DELAY_MS :: nat where "RETRY_DELAY_MS = 5000"

text \<open>
  The answer of the storage backend to one \<^verbatim>\<open>DeleteObjects\<close> command: the promise rejects,
  or it resolves with \<^verbatim>\<open>data.Errors\<close> (absent, or the keys that were not deleted). The
  backend is a parameter: a function from the number of commands sent before this one and
  the keys to the answer. A command that resolves has deleted the keys it does not report under
  \<^verbatim>\<open>Errors\<close>; a command that rejects has deleted nothing.
\<close>

datatype s3_delete_reply = Rejects js_error | Resolves "string list option"

type_synonym s3_backend = "nat \<Rightarrow> string list \<Rightarrow> s3_delete_reply"

record s3_deletion_result =
  deleted :: "string list"
  errors :: "string list"

definition s3_send_delete :: "s3_backend \<Rightarrow> string list \<Rightarrow> world \<Rightarrow> s3_delete_reply \<times> world" where
  "s3_send_delete s3 keys w =
     (let reply = s3 (length (s3_sent w)) keys;
          w' = w\<lparr>s3_sent := s3_sent w @ [DeleteObjects keys]\<rparr>
      in case reply of
           Rejects e \<Rightarrow> (reply, w')
         | Resolves errs \<Rightarrow>
             (let removed = filter (\<lambda>k. k \<notin> set (case errs of None \<Rightarrow> [] | Some es \<Rightarrow> es)) keys
              in (reply, w'\<lparr>objects := filter (\<lambda>k. k \<notin> set removed) (objects w)\<rparr>)))"

definition deleteS3Objects :: "s3_backend \<Rightarrow> string list \<Rightarrow> world \<Rightarrow> s3_deletion_result \<times> world" where
  "deleteS3Objects s3 keys w =
     (if length keys = 0 then (\<lparr>deleted = [], errors = []\<rparr>, w)
      else case s3_send_delete s3 keys w of
             (Resolves (Some es), w') \<Rightarrow>
               if length es > 0 then (\<lparr>deleted = [], errors = es\<rparr>, w')
               else (\<lparr>deleted = keys, errors = []\<rparr>, w')
           | (Resolves None, w') \<Rightarrow> (\<lparr>deleted = keys, errors = []\<rparr>, w')
           | (Rejects error, w') \<Rightarrow> (\<lparr>deleted = [], errors = keys\<rparr>, w'))"

text \<open>
  \<^verbatim>\<open>logDeletionActivity(file, reason, status, error = null)\<close>: a failed insert is caught and
  only written to the process log.
\<close>

definition deletionActivity_data ::
  "file_row \<Rightarrow> string \<Rightarrow> DeletionStatus \<Rightarrow> js_error option \<Rightarrow> deletion_activity" where
  "deletionActivity_data file reason status error =
     \<lparr>da_fileId = file_id file,
      da_userId = (if ownerId file = [] then None else Some (ownerId file)),
      da_s3Key = s3Key file,
      da_fileName = fileName file,
      da_reason = reason,
      da_status = status,
      da_error = (case error of Some e \<Rightarrow> Some (message e) | None \<Rightarrow> None)\<rparr>"

definition logDeletionActivity ::
  "file_row \<Rightarrow> string \<Rightarrow> DeletionStatus \<Rightarrow> js_error option \<Rightarrow> world \<Rightarrow> world" where
  "logDeletionActivity file reason status error w =
     (case deletionActivity_create (deletionActivity_data file reason status error) w of
        Inr w' \<Rightarrow> w'
      | Inl logError \<Rightarrow> w)"

subsection \<open>Stage 1: soft delete\<close>

text \<open>The \<^verbatim>\<open>where\<close> of stage 1: \<^verbatim>\<open>expiry < now\<close> (false for a null expiry) and \<^verbatim>\<open>deletedAt\<close> null.\<close>

definition expired_not_deleted :: "timestamp \<Rightarrow> file_row \<Rightarrow> bool" where
  "expired_not_deleted now f =
     ((case expiry f of None \<Rightarrow> False | Some e \<Rightarrow> e < now) \<and> deletedAt f = None)"

text \<open>
  The body of \<^verbatim>\<open>for (const file of expiredFiles)\<close>, with the counter \<^verbatim>\<open>filesProcessed\<close>.
  \<^verbatim>\<open>file\<close> is the row as it was fetched; the update runs on the table as it is now.
\<close>

fun softDeleteFiles :: "timestamp \<Rightarrow> file_row list \<Rightarrow> world \<times> nat \<Rightarrow> world \<times> nat" where
  "softDeleteFiles now [] (w, filesProcessed) = (w, filesProcessed)"
| "softDeleteFiles now (file # rest) (w, filesProcessed) =
     (case file_update_deletedAt (file_id file) now w of
        Inr w1 \<Rightarrow>
          softDeleteFiles now rest
            (logDeletionActivity file ''expired'' SUCCESS_SOFT_DELETE None w1, Suc filesProcessed)
      | Inl dbError \<Rightarrow>
          if code dbError = Some ''P2025'' then softDeleteFiles now rest (w, filesProcessed)
          else softDeleteFiles now rest
                 (logDeletionActivity file ''expired'' FAILED_DB (Some dbError) w, filesProcessed))"

text \<open>
  \<^verbatim>\<open>while (true)\<close> of stage 1. The loop has no bound of its own, so it runs on fuel: one
  unit per batch fetched, \<open>None\<close> when the fuel is used up before a fetch comes back empty.
  The fetch itself does not fail here, so the outer \<^verbatim>\<open>catch\<close> of the stage is not reached.
\<close>

fun softDeleteLoop :: "nat \<Rightarrow> timestamp \<Rightarrow> world \<times> nat \<Rightarrow> (world \<times> nat) option" where
  "softDeleteLoop 0 now (w, filesProcessed) = None"
| "softDeleteLoop (Suc fuel) now (w, filesProcessed) =
     (let expiredFiles = file_findMany (expired_not_deleted now) BATCH_SIZE w
      in if length expiredFiles = 0 then Some (w, filesProcessed)
         else softDeleteLoop fuel now (softDeleteFiles now expiredFiles (w, filesProcessed)))"

record soft_result =
  softDeletedCount :: nat

definition softDeleteExpiredFiles :: "nat \<Rightarrow> timestamp \<Rightarrow> world \<Rightarrow> (world \<times> soft_result) option" where
  "softDeleteExpiredFiles fuel now w =
     (case softDeleteLoop fuel now (w, 0) of
        None \<Rightarrow> None
      | Some (w', filesProcessed) \<Rightarrow> Some (w', \<lparr>softDeletedCount = filesProcessed\<rparr>))"

subsection \<open>Stage 2: hard delete\<close>

text \<open>The \<^verbatim>\<open>where\<close> of stage 2: \<^verbatim>\<open>deletedAt\<close> not null and before the cutoff.\<close>

definition deleted_before :: "timestamp \<Rightarrow> file_row \<Rightarrow> bool" where
  "deleted_before hardDeleteCutoff f =
     (case deletedAt f of None \<Rightarrow> False | Some t \<Rightarrow> t < hardDeleteCutoff)"

text \<open>
  \<^verbatim>\<open>for (let i = 0; i < RETRY_ATTEMPTS; i++)\<close>: every attempt replaces the result of the one
  before, and a failed attempt is followed by the delay.
\<close>

function retryLoop ::
  "s3_backend \<Rightarrow> nat \<Rightarrow> s3_deletion_result \<Rightarrow> world \<Rightarrow> s3_deletion_result \<times> world" where
  "retryLoop s3 i s3DeletionResult w =
     (if i < RETRY_ATTEMPTS then
        (case deleteS3Objects s3 (errors s3DeletionResult) w of
           (r, w') \<Rightarrow>
             if length (errors r) = 0 then (r, w')
             else retryLoop s3 (i + 1) r (w'\<lparr>slept_ms := slept_ms w' + RETRY_DELAY_MS\<rparr>))
      else (s3DeletionResult, w))"
  by pat_completeness auto
termination
  by (relation "measure (\<lambda>(s3, i, r, w). RETRY_ATTEMPTS - i)") auto

declare retryLoop.simps [simp del]

text \<open>
  The body of \<^verbatim>\<open>for (const file of filesToHardDelete)\<close>; the first argument is the array
  behind \<^verbatim>\<open>s3SuccessfullyDeletedKeys\<close>.
\<close>

fun hardDeleteFiles :: "string list \<Rightarrow> file_row list \<Rightarrow> world \<times> nat \<Rightarrow> world \<times> nat" where
  "hardDeleteFiles s3Deleted [] (w, filesProcessed) = (w, filesProcessed)"
| "hardDeleteFiles s3Deleted (file # rest) (w, filesProcessed) =
     (if s3Key file \<in> set s3Deleted then
        (case file_delete (file_id file) w of
           Inr w1 \<Rightarrow>
             hardDeleteFiles s3Deleted rest
               (logDeletionActivity file ''hard_delete'' SUCCESS_HARD_DELETE None w1,
                Suc filesProcessed)
         | Inl dbError \<Rightarrow>
             hardDeleteFiles s3Deleted rest
               (logDeletionActivity file ''hard_delete'' FAILED_DB (Some dbError) w,
                filesProcessed))
      else hardDeleteFiles s3Deleted rest
             (logDeletionActivity file ''hard_delete'' FAILED_S3
                (Some (Error ''S3 deletion failed after retries'')) w,
              filesProcessed))"

text \<open>One pass of \<^verbatim>\<open>while (true)\<close> of stage 2 over a fetched, non-empty batch.\<close>

definition hardDeleteBatch ::
  "s3_backend \<Rightarrow> file_row list \<Rightarrow> world \<times> nat \<Rightarrow> world \<times> nat" where
  "hardDeleteBatch s3 filesToHardDelete st =
     (case st of (w, filesProcessed) \<Rightarrow>
        (let s3KeysToAttemptDelete = map s3Key filesToHardDelete
         in case retryLoop s3 0 \<lparr>deleted = [], errors = s3KeysToAttemptDelete\<rparr> w of
              (s3DeletionResult, w') \<Rightarrow>
                hardDeleteFiles (deleted s3DeletionResult) filesToHardDelete (w', filesProcessed)))"

fun hardDeleteLoop ::
  "nat \<Rightarrow> s3_backend \<Rightarrow> timestamp \<Rightarrow> world \<times> nat \<Rightarrow> (world \<times> nat) option" where
  "hardDeleteLoop 0 s3 hardDeleteCutoff (w, filesProcessed) = None"
| "hardDeleteLoop (Suc fuel) s3 hardDeleteCutoff (w, filesProcessed) =
     (let filesToHardDelete = file_findMany (deleted_before hardDeleteCutoff) BATCH_SIZE w
      in if length filesToHardDelete = 0 then Some (w, filesProcessed)
         else hardDeleteLoop fuel s3 hardDeleteCutoff
                (hardDeleteBatch s3 filesToHardDelete (w, filesProcessed)))"

record hard_result =
  hardDeletedCount :: nat

text \<open>
  \<^verbatim>\<open>SOFT_DELETE_RETENTION_MINUTES\<close> is read from the process environment and is a parameter.
\<close>

definition hardDeleteSoftDeletedFiles ::
  "nat \<Rightarrow> s3_backend \<Rightarrow> int \<Rightarrow> timestamp \<Rightarrow> world \<Rightarrow> (world \<times> hard_result) option" where
  "hardDeleteSoftDeletedFiles fuel s3 SOFT_DELETE_RETENTION_MINUTES now w =
     (let hardDeleteCutoff = now - SOFT_DELETE_RETENTION_MINUTES * 60 * 1000
      in case hardDeleteLoop fuel s3 hardDeleteCutoff (w, 0) of
           None \<Rightarrow> None
         | Some (w', filesProcessed) \<Rightarrow> Some (w', \<lparr>hardDeletedCount = filesProcessed\<rparr>))"

subsection \<open>The entry point\<close>

record cleanup_result =
  result_message :: string
  softDeleted :: nat
  hardDeleted :: nat

text \<open>
  \<^verbatim>\<open>runCleanup()\<close>. Each stage reads the clock once (\<open>now1\<close>, \<open>now2\<close>). Neither stage has a
  path that rejects, so the two \<^verbatim>\<open>catch\<close> blocks of \<^verbatim>\<open>runCleanup\<close> never run; a stage that
  does not come back leaves \<^verbatim>\<open>runCleanup\<close> without a result.
\<close>

definition runCleanup ::
  "nat \<Rightarrow> s3_backend \<Rightarrow> int \<Rightarrow> timestamp \<Rightarrow> timestamp \<Rightarrow> world \<Rightarrow> (world \<times> cleanup_result) option" where
  "runCleanup fuel s3 SOFT_DELETE_RETENTION_MINUTES now1 now2 w =
     (case softDeleteExpiredFiles fuel now1 w of
        None \<Rightarrow> None
      | Some (w1, softDeleteResult) \<Rightarrow>
          (case hardDeleteSoftDeletedFiles fuel s3 SOFT_DELETE_RETENTION_MINUTES now2 w1 of
             None \<Rightarrow> None
           | Some (w2, hardDeleteResult) \<Rightarrow>
               Some (w2, \<lparr>result_message = ''Cleanup service executed'',
                          softDeleted = softDeletedCount softDeleteResult,
                          hardDeleted = hardDeletedCount hardDeleteResult\<rparr>)))"

section \<open>Request validation (utils/validation)\<close>

text \<open>
  Source: \<^verbatim>\<open>src/backend/src/utils/prisma.js\<close>, lines 17-174 (\<^verbatim>\<open>validate\<close>, lines 25-37, and
  \<^verbatim>\<open>completeUploadSchema\<close>, lines 99-123).
\<close>

text \<open>
  A key of the request body as the schema meets it, after Joi's type conversion: the key is
  absent, it is null, it holds a value that the key's base type (with its format: a UUID,
  an ISO date) does not accept, or it holds a value of that type.
\<close>

datatype 'a field = Absent | Null | Invalid | Val 'a

datatype js_number = IntegerNum int | NonInteger

text \<open>An element of the \<^verbatim>\<open>parts\<close> array: not an object, or an object with its two keys.\<close>

datatype raw_item = NotAnObject | Item "js_number field" "string field"

record complete_body =
  b_s3Key :: "string field"
  b_multipart :: "bool field"
  b_uploadId :: "string field"
  b_parts :: "raw_item list field"
  b_fileName :: "string field"
  b_mimeType :: "string field"
  b_size :: "js_number field"
  b_encryptedKeyMetadata :: "string field"
  b_folderId :: "string field"
  b_expiry :: "timestamp field"

text \<open>\<^verbatim>\<open>detail.context.key\<close> of a validation error: the failing key, or the index of an array element.\<close>

datatype error_key = AtKey string | AtIndex nat

text \<open>\<^verbatim>\<open>Joi.string()\<close>: a string; the empty string is not one. \<^verbatim>\<open>.min(1)\<close> adds nothing to it.\<close>

definition joi_string :: "string field \<Rightarrow> bool" where
  "joi_string f = (case f of Val s \<Rightarrow> s \<noteq> [] | _ \<Rightarrow> False)"

text \<open>\<^verbatim>\<open>Joi.string().min(1).max(255)\<close>.\<close>

definition joi_string_max :: "nat \<Rightarrow> string field \<Rightarrow> bool" where
  "joi_string_max hi f = (case f of Val s \<Rightarrow> 1 \<le> length s \<and> length s \<le> hi | _ \<Rightarrow> False)"

text \<open>\<^verbatim>\<open>Joi.number().integer().min(lo)\<close>.\<close>

definition joi_integer_min :: "int \<Rightarrow> js_number field \<Rightarrow> bool" where
  "joi_integer_min lo f = (case f of Val (IntegerNum n) \<Rightarrow> lo \<le> n | _ \<Rightarrow> False)"

text \<open>A key whose only rule is its base type (\<^verbatim>\<open>Joi.boolean()\<close>, \<^verbatim>\<open>Joi.date().iso()\<close>).\<close>

definition joi_any :: "'a field \<Rightarrow> bool" where
  "joi_any f = (case f of Val v \<Rightarrow> True | _ \<Rightarrow> False)"

text \<open>\<^verbatim>\<open>.optional().allow(null)\<close> on top of a rule.\<close>

definition optional_allow_null :: "('a field \<Rightarrow> bool) \<Rightarrow> 'a field \<Rightarrow> bool" where
  "optional_allow_null rule f = (f = Absent \<or> f = Null \<or> rule f)"

text \<open>
  The items schema of \<^verbatim>\<open>parts\<close>:
  \<^verbatim>\<open>Joi.object({ partNumber: Joi.number().integer().min(1).required(), eTag: Joi.string().required() })\<close>.
\<close>

fun valid_item :: "raw_item \<Rightarrow> bool" where
  "valid_item NotAnObject = False"
| "valid_item (Item pn et) = (joi_integer_min 1 pn \<and> joi_string et)"

fun item_errors :: "nat \<times> raw_item \<Rightarrow> error_key list" where
  "item_errors (i, NotAnObject) = [AtIndex i]"
| "item_errors (i, Item pn et) =
     (if joi_integer_min 1 pn then [] else [AtKey ''partNumber''])
     @ (if joi_string et then [] else [AtKey ''eTag''])"

text \<open>The test \<^verbatim>\<open>when('multipart', { is: true, ... })\<close>.\<close>

definition multipart_is_true :: "complete_body \<Rightarrow> bool" where
  "multipart_is_true b = (b_multipart b = Val True)"

text \<open>
  \<^verbatim>\<open>completeUploadSchema\<close>, key by key in the order of the schema, with
  \<^verbatim>\<open>abortEarly: false\<close> (every failing key is reported) and \<^verbatim>\<open>allowUnknown: true\<close>.
  For \<^verbatim>\<open>uploadId\<close> and \<^verbatim>\<open>parts\<close>: \<^verbatim>\<open>required()\<close> when \<^verbatim>\<open>multipart\<close> is true,
  \<^verbatim>\<open>forbidden()\<close> otherwise. The array rule of \<^verbatim>\<open>parts\<close> is \<^verbatim>\<open>Joi.array().items(...)\<close>
  and nothing more: it has no \<^verbatim>\<open>min\<close>, no \<^verbatim>\<open>unique\<close>.
\<close>

definition validation_errors :: "complete_body \<Rightarrow> error_key list" where
  "validation_errors b =
     (if joi_string (b_s3Key b) then [] else [AtKey ''s3Key''])
   @ (if b_multipart b = Absent \<or> joi_any (b_multipart b) then [] else [AtKey ''multipart''])
   @ (if multipart_is_true b
      then (if joi_string (b_uploadId b) then [] else [AtKey ''uploadId''])
      else (if b_uploadId b = Absent then [] else [AtKey ''uploadId'']))
   @ (if multipart_is_true b
      then (case b_parts b of
              Val items \<Rightarrow> concat (map item_errors (enumerate 0 items))
            | _ \<Rightarrow> [AtKey ''parts''])
      else (if b_parts b = Absent then [] else [AtKey ''parts'']))
   @ (if joi_string_max 255 (b_fileName b) then [] else [AtKey ''fileName''])
   @ (if joi_string (b_mimeType b) then [] else [AtKey ''mimeType''])
   @ (if joi_integer_min 0 (b_size b) then [] else [AtKey ''size''])
   @ (if optional_allow_null joi_string (b_encryptedKeyMetadata b) then []
      else [AtKey ''encryptedKeyMetadata''])
   @ (if optional_allow_null joi_any (b_folderId b) then [] else [AtKey ''folderId''])
   @ (if optional_allow_null joi_any (b_expiry b) then [] else [AtKey ''expiry''])"

text \<open>
  The validated value. The schema ties \<^verbatim>\<open>uploadId\<close> and \<^verbatim>\<open>parts\<close> to \<^verbatim>\<open>multipart\<close>: a
  value with \<^verbatim>\<open>multipart\<close> true has both, any other value has neither.
\<close>

datatype upload_mode = Single | Multipart string "part list"

record complete_value =
  v_s3Key :: string
  v_mode :: upload_mode
  v_fileName :: string
  v_mimeType :: string
  v_size :: int
  v_encryptedKeyMetadata :: "string option"
  v_folderId :: "string option"
  v_expiry :: "timestamp option"

fun to_part :: "raw_item \<Rightarrow> part option" where
  "to_part (Item (Val (IntegerNum n)) (Val e)) = Some \<lparr>partNumber = n, eTag = e\<rparr>"
| "to_part item = None"

definition string_of_field :: "string field \<Rightarrow> string" where
  "string_of_field f = (case f of Val s \<Rightarrow> s | _ \<Rightarrow> [])"

definition option_of_field :: "'a field \<Rightarrow> 'a option" where
  "option_of_field f = (case f of Val v \<Rightarrow> Some v | _ \<Rightarrow> None)"

definition value_of_body :: "complete_body \<Rightarrow> complete_value" where
  "value_of_body b =
     \<lparr>v_s3Key = string_of_field (b_s3Key b),
      v_mode = (if multipart_is_true b
                then Multipart (string_of_field (b_uploadId b))
                       (case b_parts b of Val items \<Rightarrow> List.map_filter to_part items | _ \<Rightarrow> [])
                else Single),
      v_fileName = string_of_field (b_fileName b),
      v_mimeType = string_of_field (b_mimeType b),
      v_size = (case b_size b of Val (IntegerNum n) \<Rightarrow> n | _ \<Rightarrow> 0),
      v_encryptedKeyMetadata = option_of_field (b_encryptedKeyMetadata b),
      v_folderId = option_of_field (b_folderId b),
      v_expiry = option_of_field (b_expiry b)\<rparr>"

text \<open>\<^verbatim>\<open>validate(req.body, completeUploadSchema)\<close>: \<^verbatim>\<open>{ errors }\<close> or \<^verbatim>\<open>{ value }\<close>.\<close>

definition validate_complete :: "complete_body \<Rightarrow> error_key list + complete_value" where
  "validate_complete b =
     (let errors = validation_errors b
      in if errors \<noteq> [] then Inl errors else Inr (value_of_body b))"

section \<open>Upload controller (controllers/fileController)\<close>

text \<open>
  Source: \<^verbatim>\<open>src/backend/src/controllers/fileController.js\<close>, \<^verbatim>\<open>complete\<close>, lines 55-130
  (and again, unchanged, lines 237-312).
\<close>

text \<open>
  The answers of the storage backend to the two commands of a multipart completion, by the
  number of commands sent before: \<open>None\<close> when the promise resolves, the error when it
  rejects. A \<^verbatim>\<open>CompleteMultipartUpload\<close> that resolves has assembled the object: its key
  is in the bucket from then on.
\<close>

record upload_backend =
  completeMultipartUpload_reply :: "nat \<Rightarrow> complete_command \<Rightarrow> js_error option"
  abortMultipartUpload_reply :: "nat \<Rightarrow> string \<Rightarrow> string \<Rightarrow> js_error option"

text \<open>
  \<^verbatim>\<open>completeMultipart({ key, uploadId, parts })\<close> as the controller calls it: the array of
  the validated value is handed over (here at reference 0 of a store of its own; the
  controller does not read it again) and the command is sent.
\<close>

definition completeMultipart ::
  "upload_backend \<Rightarrow> string \<Rightarrow> string \<Rightarrow> string \<Rightarrow> part list \<Rightarrow> world \<Rightarrow> js_error option \<times> world" where
  "completeMultipart s3 BUCKET key uploadId parts w =
     (let command = snd (completeMultipart_command BUCKET (empty_store(0 := parts)) key uploadId 0);
          reply = completeMultipartUpload_reply s3 (length (s3_sent w)) command;
          w' = w\<lparr>s3_sent := s3_sent w @ [CompleteMultipartUpload command]\<rparr>
      in case reply of
           Some err \<Rightarrow> (Some err, w')
         | None \<Rightarrow> (None, w'\<lparr>objects := (if key \<in> set (objects w) then objects w
                                            else objects w @ [key])\<rparr>))"

text \<open>
  \<^verbatim>\<open>abortMultipart({ key, uploadId })\<close>: the error of a failed abort is written to the
  console and thrown again.
\<close>

definition abortMultipart ::
  "upload_backend \<Rightarrow> string \<Rightarrow> string \<Rightarrow> world \<Rightarrow> js_error option \<times> world" where
  "abortMultipart s3 key uploadId w =
     (case abortMultipartUpload_reply s3 (length (s3_sent w)) key uploadId of
        None \<Rightarrow> (None, w\<lparr>s3_sent := s3_sent w @ [AbortMultipartUpload key uploadId]\<rparr>)
      | Some err \<Rightarrow> (Some err, w\<lparr>s3_sent := s3_sent w @ [AbortMultipartUpload key uploadId]\<rparr>))"

text \<open>
  \<^verbatim>\<open>prisma.file.create({ data })\<close>: the primary key and the unique index \<^verbatim>\<open>File_s3Key_key\<close>
  reject a second row with the same id or the same key (P2002). The database gives the row
  its id; the owner and the folder the row refers to are taken to exist.
\<close>

definition file_create :: "file_row \<Rightarrow> world \<Rightarrow> js_error + (file_row \<times> world)" where
  "file_create row w =
     (if list_ex (\<lambda>f. file_id f = file_id row \<or> s3Key f = s3Key row) (files w) then Inl P2002
      else Inr (row, w\<lparr>files := files w @ [row]\<rparr>))"

text \<open>\<^verbatim>\<open>prisma.activity.create({ data })\<close>: \<^verbatim>\<open>fileId\<close>, when given, refers to a file row.\<close>

definition activity_create :: "activity \<Rightarrow> world \<Rightarrow> js_error + world" where
  "activity_create a w =
     (case act_fileId a of
        None \<Rightarrow> Inr (w\<lparr>activities := activities w @ [a]\<rparr>)
      | Some i \<Rightarrow>
          if list_ex (\<lambda>f. file_id f = i) (files w)
          then Inr (w\<lparr>activities := activities w @ [a]\<rparr>)
          else Inl P2003)"

record request =
  auth_userId :: "string option"
  body :: complete_body

text \<open>
  How \<^verbatim>\<open>complete\<close> ends: one of its three responses, or \<^verbatim>\<open>next(err)\<close> with the error
  that reached the outer \<^verbatim>\<open>catch\<close>.
\<close>

datatype response = Status400 "error_key list" | Status401 | Status201 file_row | NextError js_error

text \<open>
  The inner \<^verbatim>\<open>try\<close>/\<^verbatim>\<open>catch\<close> around \<^verbatim>\<open>completeMultipart\<close>. What is thrown comes with
  the value the flag \<^verbatim>\<open>aborted\<close> has at that moment: the flag is set only after
  \<^verbatim>\<open>await abortMultipart(...)\<close> has come back, so an abort that rejects leaves the handler
  with its own error and the flag still false.
\<close>

definition assemble ::
  "upload_backend \<Rightarrow> string \<Rightarrow> string \<Rightarrow> string \<Rightarrow> part list \<Rightarrow> world
     \<Rightarrow> (js_error \<times> bool) option \<times> world" where
  "assemble s3 BUCKET key uploadId parts w =
     (case completeMultipart s3 BUCKET key uploadId parts w of
        (None, w1) \<Rightarrow> (None, w1)
      | (Some err, w1) \<Rightarrow>
          (case abortMultipart s3 key uploadId w1 of
             (Some abortErr, w2) \<Rightarrow> (Some (abortErr, False), w2)
           | (None, w2) \<Rightarrow>
               (Some (Error (''Multipart upload failed and aborted: '' @ message err), True), w2)))"

text \<open>
  The outer \<^verbatim>\<open>try\<close> block after validation and the authentication check: \<open>Inr\<close> the row
  of the 201 response, \<open>Inl\<close> what was thrown, with the flag \<^verbatim>\<open>aborted\<close>.
\<close>

definition complete_try ::
  "upload_backend \<Rightarrow> string \<Rightarrow> string \<Rightarrow> string \<Rightarrow> complete_value \<Rightarrow> world
     \<Rightarrow> ((js_error \<times> bool) + file_row) \<times> world" where
  "complete_try s3 BUCKET new_id userId v w =
     (case (case v_mode v of
              Multipart uploadId parts \<Rightarrow> assemble s3 BUCKET (v_s3Key v) uploadId parts w
            | Single \<Rightarrow> (None, w)) of
        (Some thrown, w1) \<Rightarrow> (Inl thrown, w1)
      | (None, w1) \<Rightarrow>
          (case file_create
                  \<lparr>file_id = new_id, s3Key = v_s3Key v, fileName = v_fileName v,
                   mimeType = v_mimeType v, size_bytes = v_size v, isEncrypted = True,
                   encryptedKeyMetadata = v_encryptedKeyMetadata v, expiry = v_expiry v,
                   uploadStatus = ''COMPLETED'', ownerId = userId, folderId = v_folderId v,
                   deletedAt = None\<rparr> w1 of
             Inl err \<Rightarrow> (Inl (err, False), w1)
           | Inr (file, w2) \<Rightarrow>
               (case activity_create
                       \<lparr>act_type = ''FILE_UPLOADED'',
                        act_message = ''File uploaded: '' @ v_fileName v,
                        act_userId = Some userId, act_fileId = Some (file_id file),
                        act_size = v_size v\<rparr> w2 of
                  Inl err \<Rightarrow> (Inl (err, False), w2)
                | Inr w3 \<Rightarrow> (Inr file, w3))))"

text \<open>
  \<^verbatim>\<open>complete(req, res, next)\<close>. The safety net of the outer \<^verbatim>\<open>catch\<close> tests
  \<^verbatim>\<open>req.body.multipart && req.body.uploadId\<close>; once validation has passed, that is true
  exactly for a multipart value (whose \<^verbatim>\<open>uploadId\<close> is a non-empty string). An error of
  the safety net's abort is dropped.
\<close>

definition complete ::
  "upload_backend \<Rightarrow> string \<Rightarrow> string \<Rightarrow> request \<Rightarrow> world \<Rightarrow> response \<times> world" where
  "complete s3 BUCKET new_id req w =
     (case validate_complete (body req) of
        Inl validationErrors \<Rightarrow> (Status400 validationErrors, w)
      | Inr v \<Rightarrow>
          (case auth_userId req of
             None \<Rightarrow> (Status401, w)
           | Some userId \<Rightarrow>
               if userId = [] then (Status401, w)
               else (case complete_try s3 BUCKET new_id userId v w of
                       (Inr file, w') \<Rightarrow> (Status201 file, w')
                     | (Inl (err, aborted), w') \<Rightarrow>
                         (case v_mode v of
                            Multipart uploadId parts \<Rightarrow>
                              if \<not> aborted
                              then (NextError err, snd (abortMultipart s3 (v_s3Key v) uploadId w'))
                              else (NextError err, w')
                          | Single \<Rightarrow> (NextError err, w')))))"

section \<open>Sample states\<close>

text \<open>A file row that was soft-deleted at the given time.\<close>

definition soft_deleted_file :: "string \<Rightarrow> string \<Rightarrow> timestamp \<Rightarrow> file_row" where
  "soft_deleted_file i k t =
     \<lparr>file_id = i, s3Key = k, fileName = ''a.pdf'', mimeType = ''application/pdf'',
      size_bytes = 1024, isEncrypted = True, encryptedKeyMetadata = None, expiry = Some 0,
      uploadStatus = ''COMPLETED'', ownerId = ''u1'', folderId = None, deletedAt = Some t\<rparr>"

text \<open>Five rows soft-deleted at time 1000, their objects in the bucket, an empty audit log.\<close>

definition five_files :: "file_row list" where
  "five_files =
     [soft_deleted_file ''f1'' ''k1'' 1000, soft_deleted_file ''f2'' ''k2'' 1000,
      soft_deleted_file ''f3'' ''k3'' 1000, soft_deleted_file ''f4'' ''k4'' 1000,
      soft_deleted_file ''f5'' ''k5'' 1000]"

definition five_world :: world where
  "five_world =
     \<lparr>files = five_files, deletionActivities = [], activities = [],
      objects = [''k1'', ''k2'', ''k3'', ''k4'', ''k5''], s3_sent = [], slept_ms = 0\<rparr>"

text \<open>A backend that deletes every key but \<^verbatim>\<open>k4\<close> and \<^verbatim>\<open>k5\<close>, which it reports under \<^verbatim>\<open>Errors\<close>.\<close>

definition two_keys_fail :: s3_backend where
  "two_keys_fail n keys = Resolves (Some (filter (\<lambda>k. k = ''k4'' \<or> k = ''k5'') keys))"

text \<open>A file row that is not soft-deleted, with its expiry.\<close>

definition active_file :: "string \<Rightarrow> string \<Rightarrow> timestamp \<Rightarrow> file_row" where
  "active_file i k e =
     \<lparr>file_id = i, s3Key = k, fileName = ''a.pdf'', mimeType = ''application/pdf'',
      size_bytes = 1024, isEncrypted = True, encryptedKeyMetadata = None, expiry = Some e,
      uploadStatus = ''COMPLETED'', ownerId = ''u1'', folderId = None, deletedAt = None\<rparr>"

text \<open>One file past its expiry, not yet soft-deleted.\<close>

definition one_expired_world :: world where
  "one_expired_world =
     \<lparr>files = [active_file ''f1'' ''k1'' 0], deletionActivities = [], activities = [],
      objects = [''k1''], s3_sent = [], slept_ms = 0\<rparr>"

text \<open>One soft-deleted file that no audit entry refers to.\<close>

definition unlogged_world :: world where
  "unlogged_world =
     \<lparr>files = [soft_deleted_file ''f1'' ''k1'' 1000], deletionActivities = [], activities = [],
      objects = [''k1''], s3_sent = [], slept_ms = 0\<rparr>"

text \<open>A backend that deletes every key it is given.\<close>

definition all_keys_deleted :: s3_backend where
  "all_keys_deleted n keys = Resolves None"

text \<open>Nothing stored, nothing sent.\<close>

definition empty_world :: world where
  "empty_world = \<lparr>files = [], deletionActivities = [], activities = [], objects = [],
                   s3_sent = [], slept_ms = 0\<rparr>"

text \<open>A multipart completion request for key \<^verbatim>\<open>k1\<close> and session \<^verbatim>\<open>up1\<close>, with the given \<^verbatim>\<open>parts\<close>.\<close>

definition multipart_body :: "raw_item list field \<Rightarrow> complete_body" where
  "multipart_body ps =
     \<lparr>b_s3Key = Val ''k1'', b_multipart = Val True, b_uploadId = Val ''up1'', b_parts = ps,
      b_fileName = Val ''a.pdf'', b_mimeType = Val ''application/pdf'',
      b_size = Val (IntegerNum 1024), b_encryptedKeyMetadata = Absent, b_folderId = Absent,
      b_expiry = Absent\<rparr>"


text \<open>The row these requests create for owner \<^verbatim>\<open>u1\<close> when the database assigns id \<^verbatim>\<open>f1\<close>.\<close>

definition uploaded_row :: file_row where
  "uploaded_row =
     \<lparr>file_id = ''f1'', s3Key = ''k1'', fileName = ''a.pdf'', mimeType = ''application/pdf'',
      size_bytes = 1024, isEncrypted = True, encryptedKeyMetadata = None, expiry = None,
      uploadStatus = ''COMPLETED'', ownerId = ''u1'', folderId = None, deletedAt = None\<rparr>"

text \<open>A backend that resolves every command.\<close>

definition backend_ok :: upload_backend where
  "backend_ok = \<lparr>completeMultipartUpload_reply = (\<lambda>n c. None),
                  abortMultipartUpload_reply = (\<lambda>n k u. None)\<rparr>"

text \<open>A backend that rejects the assembly and resolves the abort.\<close>

definition backend_rejects_assembly :: upload_backend where
  "backend_rejects_assembly =
     \<lparr>completeMultipartUpload_reply = (\<lambda>n c. Some (Error ''assembly failed'')),
      abortMultipartUpload_reply = (\<lambda>n k u. None)\<rparr>"

text \<open>A backend that rejects the assembly and the abort.\<close>

definition backend_rejects_all :: upload_backend where
  "backend_rejects_all =
     \<lparr>completeMultipartUpload_reply = (\<lambda>n c. Some (Error ''assembly failed'')),
      abortMultipartUpload_reply = (\<lambda>n k u. Some (Error ''abort failed''))\<rparr>"

section \<open>Notions used in the statements\<close>

text \<open>The audit entry stage 1 writes for a file.\<close>

definition soft_entry :: "file_row \<Rightarrow> deletion_activity" where
  "soft_entry f = deletionActivity_data f ''expired'' SUCCESS_SOFT_DELETE None"

text \<open>The rows of a batch get \<^verbatim>\<open>deletedAt = now\<close>; every other row is left as it is.\<close>

definition mark_rows :: "timestamp \<Rightarrow> file_row list \<Rightarrow> file_row list \<Rightarrow> file_row list" where
  "mark_rows now batch fs = map (\<lambda>f. if f \<in> set batch then f\<lparr>deletedAt := Some now\<rparr> else f) fs"

text \<open>How many \<^verbatim>\<open>SUCCESS_SOFT_DELETE\<close> entries the audit log holds for a file id.\<close>

definition soft_deleted_entries :: "string \<Rightarrow> world \<Rightarrow> nat" where
  "soft_deleted_entries i w =
     length (filter (\<lambda>a. da_fileId a = i \<and> da_status a = SUCCESS_SOFT_DELETE) (deletionActivities w))"

text \<open>
  A backend that keeps failing on a family of key lists: whenever it is asked to delete
  such a list, it rejects, or it reports a list of the family under \<^verbatim>\<open>Errors\<close>; no list
  of the family is empty.
\<close>

definition keeps_failing :: "s3_backend \<Rightarrow> (string list \<Rightarrow> bool) \<Rightarrow> bool" where
  "keeps_failing s3 bad =
     (\<forall>ks n. bad ks \<longrightarrow>
        ks \<noteq> [] \<and> (case s3 n ks of Rejects e \<Rightarrow> True | Resolves None \<Rightarrow> False
                                | Resolves (Some es) \<Rightarrow> bad es))"

text \<open>
  The constraint \<^verbatim>\<open>DeletionActivity_fileId_fkey\<close> as a property of a state: every audit
  entry refers to a file row that exists.
\<close>

definition fk_holds :: "world \<Rightarrow> bool" where
  "fk_holds w =
     list_all (\<lambda>a. list_ex (\<lambda>f. file_id f = da_fileId a) (files w)) (deletionActivities w)"

text \<open>
  What the schema asks of \<^verbatim>\<open>parts\<close>: for a multipart request an array whose elements all
  pass the items schema, for any other request no \<^verbatim>\<open>parts\<close> key at all.
\<close>

definition parts_accepted :: "complete_body \<Rightarrow> bool" where
  "parts_accepted b =
     (if multipart_is_true b
      then (case b_parts b of Val items \<Rightarrow> list_all valid_item items | _ \<Rightarrow> False)
      else b_parts b = Absent)"

section \<open>Properties of multipart completion\<close>

lemma filter_key_distinct:
  "distinct (map f xs) \<Longrightarrow> k \<in> set xs \<Longrightarrow> filter (\<lambda>x. f k = f x) xs = [k]"
proof (induction xs)
  case Nil
  then show ?case by simp
next
  case (Cons a xs)
  show ?case
  proof (cases "k = a")
    case True
    have "filter (\<lambda>x. f a = f x) xs = []"
      using Cons.prems(1) by (auto simp: filter_empty_conv)
    with True show ?thesis by simp
  next
    case False
    with Cons.prems have kin: "k \<in> set xs" by simp
    with Cons.prems(1) have "f k \<noteq> f a" by (metis distinct.simps(2) image_eqI list.simps(9) set_map)
    with Cons.IH Cons.prems(1) kin show ?thesis by simp
  qed
qed

lemma sort_key_permutation_distinct:
  assumes "mset ps = mset qs" and "distinct (map f ps)"
  shows "sort_key f ps = sort_key f qs"
proof (rule properties_for_sort_key)
  show "mset (sort_key f qs) = mset ps" using assms(1) by simp
next
  show "sorted (map f (sort_key f qs))" by simp
next
  fix k assume "k \<in> set (sort_key f qs)"
  then have kq: "k \<in> set qs" by simp
  then have kp: "k \<in> set ps" using assms(1) by (metis mset_eq_setD)
  have "mset (map f ps) = mset (map f qs)" using assms(1) by (metis mset_map)
  then have dq: "distinct (map f qs)" using assms(2) by (metis mset_eq_imp_distinct_iff)
  have "filter (\<lambda>x. f k = f x) (sort_key f qs) = filter (\<lambda>x. f k = f x) qs"
    using sort_key_stable [of f "f k" qs] by (simp add: eq_commute)
  also have "\<dots> = [k]" using dq kq by (rule filter_key_distinct)
  also have "\<dots> = filter (\<lambda>x. f k = f x) ps"
    using assms(2) kp by (rule filter_key_distinct [symmetric])
  finally show "filter (\<lambda>x. f k = f x) (sort_key f qs) = filter (\<lambda>x. f k = f x) ps" .
qed

text \<open>
  Claim C10. \<^verbatim>\<open>completeMultipart\<close> sorts the caller's own array: after the call the array
  the caller passed holds the same parts, reordered ascending by part number (the stable
  sort of what it held before), and no other array of the store has changed. The command
  carries exactly the array's new contents.
\<close>

theorem completeMultipart_sorts_argument_in_place:
  "fst (completeMultipart_command B h key uploadId r) r = sort_key partNumber (h r)
   \<and> sorted (map partNumber (fst (completeMultipart_command B h key uploadId r) r))
   \<and> mset (fst (completeMultipart_command B h key uploadId r) r) = mset (h r)
   \<and> fst (completeMultipart_command B h key uploadId r) = h(r := sort_parts (h r))
   \<and> Parts (snd (completeMultipart_command B h key uploadId r))
       = map to_s3_part (fst (completeMultipart_command B h key uploadId r) r)"
  by (simp add: completeMultipart_command_def sort_parts_def Let_def)

text \<open>
  Claim C7, as stated: any order of the same parts gives the assembly command of the parts
  pre-sorted ascending by part number. The request schema does not ask for distinct part
  numbers, and the sort is stable, so two parts with one part number reach the backend in
  the order the client supplied them: the list \<open>[(1, b), (1, a)]\<close> and its reordering
  \<open>[(1, a), (1, b)]\<close>, which is sorted ascending by part number, give different commands.
\<close>

theorem completeMultipart_order_counterexample:
  "mset [\<lparr>partNumber = 1, eTag = ''b''\<rparr>, \<lparr>partNumber = 1, eTag = ''a''\<rparr>]
     = mset [\<lparr>partNumber = 1, eTag = ''a''\<rparr>, \<lparr>partNumber = 1, eTag = ''b''\<rparr>]
   \<and> sorted (map partNumber [\<lparr>partNumber = 1, eTag = ''a''\<rparr>, \<lparr>partNumber = 1, eTag = ''b''\<rparr>])
   \<and> snd (completeMultipart_command ''bucket''
         (empty_store(0 := [\<lparr>partNumber = 1, eTag = ''b''\<rparr>, \<lparr>partNumber = 1, eTag = ''a''\<rparr>]))
         ''k'' ''u'' 0)
     \<noteq> snd (completeMultipart_command ''bucket''
         (empty_store(0 := [\<lparr>partNumber = 1, eTag = ''a''\<rparr>, \<lparr>partNumber = 1, eTag = ''b''\<rparr>]))
         ''k'' ''u'' 0)"
  by (simp add: completeMultipart_command_def sort_parts_def to_s3_part_def empty_store_def)

text \<open>
  Claim C7, amended: when the part numbers are pairwise distinct, two arrays holding the
  same parts in any two orders give the same assembly command, and its part list is the
  parts in ascending order of part number.
\<close>

theorem completeMultipart_order_independent:
  assumes "mset (h r) = mset (h' r')" and "distinct (map partNumber (h r))"
  shows "snd (completeMultipart_command B h key uploadId r)
           = snd (completeMultipart_command B h' key uploadId r')
         \<and> map PartNumber (Parts (snd (completeMultipart_command B h key uploadId r)))
           = sort (map partNumber (h r))"
proof -
  have "sort_key partNumber (h r) = sort_key partNumber (h' r')"
    using assms by (rule sort_key_permutation_distinct)
  moreover have "sort (map partNumber (h r)) = map partNumber (sort_key partNumber (h r))"
    by (rule properties_for_sort) simp_all
  then have "map PartNumber (map to_s3_part (sort_key partNumber (h r)))
                   = sort (map partNumber (h r))"
    by (simp add: to_s3_part_def comp_def)
  ultimately show ?thesis
    by (simp add: completeMultipart_command_def sort_parts_def Let_def)
qed

theorem completeMultipart_order_independent_witness:
  "mset [\<lparr>partNumber = 2, eTag = ''b''\<rparr>, \<lparr>partNumber = 1, eTag = ''a''\<rparr>]
     = mset [\<lparr>partNumber = 1, eTag = ''a''\<rparr>, \<lparr>partNumber = 2, eTag = ''b''\<rparr>]
   \<and> distinct (map partNumber [\<lparr>partNumber = 2, eTag = ''b''\<rparr>, \<lparr>partNumber = 1, eTag = ''a''\<rparr>])
   \<and> snd (completeMultipart_command ''bucket''
         (empty_store(0 := [\<lparr>partNumber = 2, eTag = ''b''\<rparr>, \<lparr>partNumber = 1, eTag = ''a''\<rparr>]))
         ''k'' ''u'' 0)
     = snd (completeMultipart_command ''bucket''
         (empty_store(0 := [\<lparr>partNumber = 1, eTag = ''a''\<rparr>, \<lparr>partNumber = 2, eTag = ''b''\<rparr>]))
         ''k'' ''u'' 0)
   \<and> map PartNumber (Parts (snd (completeMultipart_command ''bucket''
         (empty_store(0 := [\<lparr>partNumber = 2, eTag = ''b''\<rparr>, \<lparr>partNumber = 1, eTag = ''a''\<rparr>]))
         ''k'' ''u'' 0))) = [1, 2]"
proof -
  have m: "mset ((empty_store(0 := [\<lparr>partNumber = 2, eTag = ''b''\<rparr>, \<lparr>partNumber = 1, eTag = ''a''\<rparr>])) 0)
     = mset ((empty_store(0 := [\<lparr>partNumber = 1, eTag = ''a''\<rparr>, \<lparr>partNumber = 2, eTag = ''b''\<rparr>])) 0)"
    by simp
  have d: "distinct (map partNumber
     ((empty_store(0 := [\<lparr>partNumber = 2, eTag = ''b''\<rparr>, \<lparr>partNumber = 1, eTag = ''a''\<rparr>])) 0))"
    by simp
  note t = completeMultipart_order_independent
      [where h = "empty_store(0 := [\<lparr>partNumber = 2, eTag = ''b''\<rparr>, \<lparr>partNumber = 1, eTag = ''a''\<rparr>])"
         and h' = "empty_store(0 := [\<lparr>partNumber = 1, eTag = ''a''\<rparr>, \<lparr>partNumber = 2, eTag = ''b''\<rparr>])"
         and r = 0 and r' = 0 and B = "''bucket''" and key = "''k''" and uploadId = "''u''",
       OF m d]
  have e2: "map PartNumber (Parts (snd (completeMultipart_command ''bucket''
         (empty_store(0 := [\<lparr>partNumber = 2, eTag = ''b''\<rparr>, \<lparr>partNumber = 1, eTag = ''a''\<rparr>]))
         ''k'' ''u'' 0))) = [1, 2]"
    using t [THEN conjunct2] by simp
  show ?thesis
    using t [THEN conjunct1] e2
    by simp
qed

section \<open>Properties of the cleanup service\<close>

subsection \<open>What the steps leave unchanged\<close>

lemma logDeletionActivity_frame:
  "files (logDeletionActivity f r s e w) = files w"
  "objects (logDeletionActivity f r s e w) = objects w"
  "s3_sent (logDeletionActivity f r s e w) = s3_sent w"
  by (simp_all add: logDeletionActivity_def deletionActivity_create_def)

lemma logDeletionActivity_existing:
  "list_ex (\<lambda>g. file_id g = file_id f) (files w) \<Longrightarrow>
   logDeletionActivity f r s e w
     = w\<lparr>deletionActivities := deletionActivities w @ [deletionActivity_data f r s e]\<rparr>"
  by (simp add: logDeletionActivity_def deletionActivity_create_def deletionActivity_data_def)

lemma hardDeleteFiles_none_deleted:
  "files (fst (hardDeleteFiles [] fs (w, n))) = files w \<and> snd (hardDeleteFiles [] fs (w, n)) = n"
  by (induction fs arbitrary: w) (simp_all add: logDeletionActivity_frame)

lemma deleteS3Objects_tables:
  "files (snd (deleteS3Objects s3 keys w)) = files w
   \<and> deletionActivities (snd (deleteS3Objects s3 keys w)) = deletionActivities w"
  by (simp add: deleteS3Objects_def s3_send_delete_def Let_def
           split: s3_delete_reply.splits option.splits)

lemma retryLoop_tables:
  "files (snd (retryLoop s3 i r w)) = files w
   \<and> deletionActivities (snd (retryLoop s3 i r w)) = deletionActivities w"
proof (induction s3 i r w rule: retryLoop.induct)
  case (1 s3 i r w)
  show ?case
  proof (cases "i < RETRY_ATTEMPTS")
    case False
    then show ?thesis by (simp add: retryLoop.simps)
  next
    case True
    obtain r' w' where d: "deleteS3Objects s3 (errors r) w = (r', w')"
      by (cases "deleteS3Objects s3 (errors r) w")
    have fw: "files w' = files w" "deletionActivities w' = deletionActivities w"
      using deleteS3Objects_tables [of s3 "errors r" w] d by simp_all
    show ?thesis
    proof (cases "length (errors r') = 0")
      case True
      with \<open>i < RETRY_ATTEMPTS\<close> d fw show ?thesis by (simp add: retryLoop.simps)
    next
      case False
      from "1.IH" [OF \<open>i < RETRY_ATTEMPTS\<close> d [symmetric] False] fw
      have "files (snd (retryLoop s3 (i + 1) r' (w'\<lparr>slept_ms := slept_ms w' + RETRY_DELAY_MS\<rparr>))) = files w
            \<and> deletionActivities (snd (retryLoop s3 (i + 1) r' (w'\<lparr>slept_ms := slept_ms w' + RETRY_DELAY_MS\<rparr>)))
                = deletionActivities w"
        by simp
      with \<open>i < RETRY_ATTEMPTS\<close> d False show ?thesis
        by (subst (1 2) retryLoop.simps) simp
    qed
  qed
qed

subsection \<open>A backend that keeps failing\<close>

lemma deleteS3Objects_keeps_failing:
  assumes closure: "keeps_failing s3 bad"
      and b: "bad keys"
  shows "deleted (fst (deleteS3Objects s3 keys w)) = []
         \<and> bad (errors (fst (deleteS3Objects s3 keys w)))"
proof -
  note c = closure [unfolded keeps_failing_def, rule_format]
  from c [OF b] have ne: "keys \<noteq> []" by simp
  show ?thesis
  proof (cases "s3 (length (s3_sent w)) keys")
    case (Rejects e)
    with ne b show ?thesis by (simp add: deleteS3Objects_def s3_send_delete_def Let_def)
  next
    case (Resolves errs)
    show ?thesis
    proof (cases errs)
      case None
      with Resolves c [OF b, of "length (s3_sent w)"] show ?thesis by simp
    next
      case (Some es)
      with Resolves c [OF b, of "length (s3_sent w)"] have bes: "bad es" by simp
      from c [OF bes] have "es \<noteq> []" by simp
      with ne bes Resolves Some show ?thesis
        by (simp add: deleteS3Objects_def s3_send_delete_def Let_def)
    qed
  qed
qed

lemma retryLoop_keeps_failing:
  "keeps_failing s3 bad \<Longrightarrow> bad (errors r) \<Longrightarrow> deleted r = []
     \<Longrightarrow> deleted (fst (retryLoop s3 i r w)) = []"
proof (induction s3 i r w rule: retryLoop.induct)
  case (1 s3 i r w)
  show ?case
  proof (cases "i < RETRY_ATTEMPTS")
    case False
    with "1.prems" show ?thesis by (simp add: retryLoop.simps)
  next
    case True
    obtain r' w' where d: "deleteS3Objects s3 (errors r) w = (r', w')"
      by (cases "deleteS3Objects s3 (errors r) w")
    from deleteS3Objects_keeps_failing [OF "1.prems"(1) "1.prems"(2), of w] d
    have r': "deleted r' = []" "bad (errors r')" by simp_all
    from "1.prems"(1) r'(2) have ne: "length (errors r') \<noteq> 0"
      by (simp add: keeps_failing_def)
    from "1.IH" [OF True d [symmetric] ne "1.prems"(1) r'(2) r'(1)]
    have "deleted (fst (retryLoop s3 (i + 1) r' (w'\<lparr>slept_ms := slept_ms w' + RETRY_DELAY_MS\<rparr>))) = []" .
    with True d ne show ?thesis by (subst retryLoop.simps) simp
  qed
qed

lemma hardDeleteBatch_keeps_failing:
  assumes closure: "keeps_failing s3 bad"
      and b: "bad (map s3Key batch)"
  shows "files (fst (hardDeleteBatch s3 batch (w, n))) = files w
         \<and> snd (hardDeleteBatch s3 batch (w, n)) = n"
proof -
  obtain r w' where rl: "retryLoop s3 0 \<lparr>deleted = [], errors = map s3Key batch\<rparr> w = (r, w')"
    by (cases "retryLoop s3 0 \<lparr>deleted = [], errors = map s3Key batch\<rparr> w")
  have "deleted r = []"
    using retryLoop_keeps_failing [OF closure, of "\<lparr>deleted = [], errors = map s3Key batch\<rparr>" 0 w] b rl
    by simp
  moreover have "files w' = files w"
    using retryLoop_tables [of s3 0 "\<lparr>deleted = [], errors = map s3Key batch\<rparr>" w] rl by simp
  ultimately show ?thesis
    using rl hardDeleteFiles_none_deleted [of batch w' n]
    by (simp add: hardDeleteBatch_def)
qed

lemma hardDeleteLoop_never_returns:
  assumes closure: "keeps_failing s3 bad"
  shows "bad (map s3Key (file_findMany (deleted_before cutoff) BATCH_SIZE w))
         \<Longrightarrow> hardDeleteLoop fuel s3 cutoff (w, n) = None"
proof (induction fuel arbitrary: w n)
  case 0
  show ?case by simp
next
  case (Suc fuel)
  let ?batch = "file_findMany (deleted_before cutoff) BATCH_SIZE w"
  from closure Suc.prems have ne: "?batch \<noteq> []" by (auto simp: keeps_failing_def)
  obtain w' n' where hb: "hardDeleteBatch s3 ?batch (w, n) = (w', n')"
    by (cases "hardDeleteBatch s3 ?batch (w, n)")
  from hardDeleteBatch_keeps_failing [OF closure Suc.prems, of w n] hb
  have fw: "files w' = files w" by simp
  then have "file_findMany (deleted_before cutoff) BATCH_SIZE w' = ?batch"
    by (simp add: file_findMany_def)
  with Suc.prems have "bad (map s3Key (file_findMany (deleted_before cutoff) BATCH_SIZE w'))"
    by simp
  from Suc.IH [OF this] have "hardDeleteLoop fuel s3 cutoff (w', n') = None" .
  with ne hb show ?case by (simp add: Let_def)
qed

lemma five_files_fetched:
  "file_findMany (deleted_before 100000) BATCH_SIZE five_world = five_files"
  by (simp add: file_findMany_def deleted_before_def BATCH_SIZE_def five_world_def five_files_def
        soft_deleted_file_def)

lemma two_keys_fail_keeps_failing:
  "keeps_failing two_keys_fail (\<lambda>ks. ''k4'' \<in> set ks)"
  by (auto simp: keeps_failing_def two_keys_fail_def)

lemma five_world_stuck:
  "hardDeleteLoop fuel two_keys_fail 100000 (five_world, 0) = None"
proof -
  have "''k4'' \<in> set (map s3Key (file_findMany (deleted_before 100000) BATCH_SIZE five_world))"
    by (simp add: five_files_fetched) (simp add: five_files_def soft_deleted_file_def)
  then show ?thesis
    by (rule hardDeleteLoop_never_returns [OF two_keys_fail_keeps_failing])
qed

lemma five_world_nothing_expired:
  "file_findMany (expired_not_deleted 700000) BATCH_SIZE five_world = []"
  by (simp add: file_findMany_def expired_not_deleted_def five_world_def five_files_def
        soft_deleted_file_def)

subsection \<open>Stage 1 on a batch and on the whole backlog\<close>

lemma same_id_same_row:
  "distinct (map file_id fs) \<Longrightarrow> f \<in> set fs \<Longrightarrow> g \<in> set fs \<Longrightarrow> file_id f = file_id g \<Longrightarrow> f = g"
  by (meson distinct_map inj_onD)

lemma file_id_mark_rows [simp]: "map file_id (mark_rows now batch fs) = map file_id fs"
  by (simp add: mark_rows_def comp_def cong: if_cong)

lemma update_one_row:
  assumes d: "distinct (map file_id (files w))" and b: "b \<in> set (files w)" and n: "deletedAt b = None"
  shows "file_update_deletedAt (file_id b) now w = Inr (w\<lparr>files := mark_rows now [b] (files w)\<rparr>)"
proof -
  have ex: "list_ex (\<lambda>f. file_id f = file_id b \<and> deletedAt f = None) (files w)"
    using b n by (auto simp: list_ex_iff)
  have "map (\<lambda>f. if file_id f = file_id b \<and> deletedAt f = None then f\<lparr>deletedAt := Some now\<rparr> else f) (files w)
        = mark_rows now [b] (files w)"
    unfolding mark_rows_def
  proof (rule map_cong [OF refl])
    fix f assume "f \<in> set (files w)"
    then show "(if file_id f = file_id b \<and> deletedAt f = None then f\<lparr>deletedAt := Some now\<rparr> else f)
               = (if f \<in> set [b] then f\<lparr>deletedAt := Some now\<rparr> else f)"
      using same_id_same_row [OF d _ b] n by auto
  qed
  with ex show ?thesis by (simp add: file_update_deletedAt_def)
qed

lemma softDeleteFiles_batch:
  assumes "distinct (map file_id (files w))" and "distinct batch" and "set batch \<subseteq> set (files w)"
      and "list_all (\<lambda>b. deletedAt b = None) batch"
  shows "softDeleteFiles now batch (w, n)
           = (w\<lparr>files := mark_rows now batch (files w),
                deletionActivities := deletionActivities w @ map soft_entry batch\<rparr>,
              n + length batch)"
  using assms
proof (induction batch arbitrary: w n)
  case Nil
  show ?case by (simp add: mark_rows_def)
next
  case (Cons b batch)
  from Cons.prems have b: "b \<in> set (files w)" and nb: "deletedAt b = None"
    and bnot: "b \<notin> set batch" by simp_all
  let ?w0 = "w\<lparr>files := mark_rows now [b] (files w)\<rparr>"
  let ?w1 = "?w0\<lparr>deletionActivities := deletionActivities w @ [soft_entry b]\<rparr>"
  have upd: "file_update_deletedAt (file_id b) now w = Inr ?w0"
    using Cons.prems(1) b nb by (rule update_one_row)
  have "list_ex (\<lambda>g. file_id g = file_id b) (files ?w0)"
    using b by (auto simp: list_ex_iff mark_rows_def)
  then have log: "logDeletionActivity b ''expired'' SUCCESS_SOFT_DELETE None ?w0 = ?w1"
    by (simp add: logDeletionActivity_existing soft_entry_def)
  have d1: "distinct (map file_id (files ?w1))" using Cons.prems(1) by simp
  have s1: "set batch \<subseteq> set (files ?w1)"
  proof
    fix g assume g: "g \<in> set batch"
    with Cons.prems(3) have "g \<in> set (files w)" by auto
    moreover from g bnot have "g \<noteq> b" by auto
    ultimately show "g \<in> set (files ?w1)" by (force simp: mark_rows_def)
  qed
  from Cons.prems have "distinct batch" "list_all (\<lambda>b. deletedAt b = None) batch" by simp_all
  from Cons.IH [OF d1 this(1) s1 this(2), of "Suc n"]
  have ih: "softDeleteFiles now batch (?w1, Suc n)
              = (?w1\<lparr>files := mark_rows now batch (files ?w1),
                     deletionActivities := deletionActivities ?w1 @ map soft_entry batch\<rparr>,
                 Suc n + length batch)" .
  have marks: "mark_rows now batch (mark_rows now [b] (files w)) = mark_rows now (b # batch) (files w)"
    unfolding mark_rows_def map_map
  proof (rule map_cong [OF refl])
    fix f assume "f \<in> set (files w)"
    have "b\<lparr>deletedAt := Some now\<rparr> \<notin> set batch"
      using Cons.prems(4) by (auto simp: list_all_iff)
    then show "((\<lambda>f. if f \<in> set batch then f\<lparr>deletedAt := Some now\<rparr> else f) \<circ>
                (\<lambda>f. if f \<in> set [b] then f\<lparr>deletedAt := Some now\<rparr> else f)) f
               = (if f \<in> set (b # batch) then f\<lparr>deletedAt := Some now\<rparr> else f)"
      by auto
  qed
  show ?case
    using upd log ih marks by simp
qed

lemma mset_split_batch:
  assumes "distinct E" and "distinct B" and "set B \<subseteq> set E"
  shows "mset B + mset (filter (\<lambda>f. f \<notin> set B) E) = mset E"
proof -
  have s: "set (filter (\<lambda>f. f \<in> set B) E) = set B" using assms(3) by auto
  have d: "distinct (filter (\<lambda>f. f \<in> set B) E)" using assms(1) by simp
  have q: "mset (filter (\<lambda>f. f \<in> set B) E) = mset B"
    by (rule set_eq_iff_mset_eq_distinct [OF d assms(2), THEN iffD1]) (rule s)
  have p: "mset E = mset (filter (\<lambda>f. f \<in> set B) E) + mset (filter (\<lambda>f. f \<notin> set B) E)"
    unfolding mset_filter by (rule multiset_partition)
  show ?thesis by (subst p) (simp only: q)
qed

lemma not_expired_after_mark:
  "\<not> expired_not_deleted now (f\<lparr>deletedAt := Some t\<rparr>)"
  by (simp add: expired_not_deleted_def)

lemma mark_rows_Cons:
  "mark_rows now B (f # fs) = (if f \<in> set B then f\<lparr>deletedAt := Some now\<rparr> else f) # mark_rows now B fs"
  by (simp add: mark_rows_def)

lemma eligible_after_batch:
  assumes "list_all (expired_not_deleted now) B"
  shows "filter (expired_not_deleted now) (mark_rows now B fs)
           = filter (\<lambda>f. f \<notin> set B) (filter (expired_not_deleted now) fs)"
proof (induction fs)
  case Nil
  show ?case by (simp add: mark_rows_def)
next
  case (Cons f fs)
  show ?case
  proof (cases "f \<in> set B")
    case True
    then show ?thesis
      by (simp only: mark_rows_Cons Cons.IH if_True filter.simps not_expired_after_mark if_False)
         simp
  next
    case False
    then show ?thesis
      by (simp only: mark_rows_Cons Cons.IH if_False filter.simps) simp
  qed
qed

lemma mark_all_after_batch:
  assumes "list_all (expired_not_deleted now) B"
  shows "map (\<lambda>f. if expired_not_deleted now f then f\<lparr>deletedAt := Some now\<rparr> else f) (mark_rows now B fs)
           = map (\<lambda>f. if expired_not_deleted now f then f\<lparr>deletedAt := Some now\<rparr> else f) fs"
  unfolding mark_rows_def map_map
proof (rule map_cong [OF refl])
  fix f assume "f \<in> set fs"
  show "((\<lambda>f. if expired_not_deleted now f then f\<lparr>deletedAt := Some now\<rparr> else f) \<circ>
         (\<lambda>f. if f \<in> set B then f\<lparr>deletedAt := Some now\<rparr> else f)) f
        = (if expired_not_deleted now f then f\<lparr>deletedAt := Some now\<rparr> else f)"
  proof (cases "f \<in> set B")
    case True
    with assms have "expired_not_deleted now f" by (simp add: list_all_iff)
    with True show ?thesis by (simp add: not_expired_after_mark)
  next
    case False
    then show ?thesis by simp
  qed
qed

lemma softDeleteLoop_drains:
  "distinct (map file_id (files w)) \<Longrightarrow>
   \<exists>fuel w'. softDeleteLoop fuel now (w, n)
                = Some (w', n + length (filter (expired_not_deleted now) (files w)))
     \<and> files w' = map (\<lambda>f. if expired_not_deleted now f then f\<lparr>deletedAt := Some now\<rparr> else f) (files w)
     \<and> mset (deletionActivities w')
         = mset (deletionActivities w) + mset (map soft_entry (filter (expired_not_deleted now) (files w)))
     \<and> activities w' = activities w \<and> objects w' = objects w
     \<and> s3_sent w' = s3_sent w \<and> slept_ms w' = slept_ms w"
proof (induction "length (filter (expired_not_deleted now) (files w))" arbitrary: w n rule: less_induct)
  case less
  let ?E = "filter (expired_not_deleted now) (files w)"
  let ?B = "file_findMany (expired_not_deleted now) BATCH_SIZE w"
  have B_def: "?B = take BATCH_SIZE (sort_key file_id ?E)" by (simp add: file_findMany_def)
  show ?case
  proof (cases "?B = []")
    case True
    then have "take BATCH_SIZE (sort_key file_id ?E) = []" by (simp add: file_findMany_def)
    then have "length (sort_key file_id ?E) = 0" by (simp add: BATCH_SIZE_def)
    then have "?E = []" by (simp del: filter_False filter_True)
    then have none: "\<And>f. f \<in> set (files w) \<Longrightarrow> \<not> expired_not_deleted now f"
      by (simp add: filter_empty_conv)
    have same: "map (\<lambda>f. if expired_not_deleted now f then f\<lparr>deletedAt := Some now\<rparr> else f) (files w) = files w"
      by (rule map_idI) (simp add: none)
    have "softDeleteLoop (Suc 0) now (w, n) = Some (w, n)" using True by simp
    with \<open>?E = []\<close> same show ?thesis by (intro exI [of _ "Suc 0"] exI [of _ w]) simp
  next
    case False
    have dfs: "distinct (files w)" using less.prems by (rule distinct_map [THEN iffD1, THEN conjunct1])
    have dE: "distinct ?E" using dfs by simp
    have subE: "set ?B \<subseteq> set ?E" unfolding B_def by (metis set_sort set_take_subset)
    have dB: "distinct ?B" unfolding B_def using dE by (simp add: distinct_take)
    have subF: "set ?B \<subseteq> set (files w)" using subE by auto
    have allE: "list_all (expired_not_deleted now) ?B" using subE by (auto simp: list_all_iff)
    then have allN: "list_all (\<lambda>b. deletedAt b = None) ?B"
      by (auto simp: list_all_iff expired_not_deleted_def)
    let ?w1 = "w\<lparr>files := mark_rows now ?B (files w),
                  deletionActivities := deletionActivities w @ map soft_entry ?B\<rparr>"
    have batch: "softDeleteFiles now ?B (w, n) = (?w1, n + length ?B)"
      using less.prems dB subF allN by (rule softDeleteFiles_batch)
    have E1: "filter (expired_not_deleted now) (files ?w1) = filter (\<lambda>f. f \<notin> set ?B) ?E"
      using eligible_after_batch [OF allE] by simp
    have split: "mset ?B + mset (filter (\<lambda>f. f \<notin> set ?B) ?E) = mset ?E"
      using dE dB subE by (rule mset_split_batch)
    from split have len: "length ?B + length (filter (\<lambda>f. f \<notin> set ?B) ?E) = length ?E"
      by (metis size_mset size_union)
    from False have "0 < length ?B" by simp
    with len have "length (filter (\<lambda>f. f \<notin> set ?B) ?E) < length ?E" by linarith
    then have smaller: "length (filter (expired_not_deleted now) (files ?w1)) < length ?E"
      by (simp only: E1)
    have d1: "distinct (map file_id (files ?w1))" using less.prems by simp
    from less.hyps [OF smaller d1, of "n + length ?B"]
    obtain fuel w' where
      run: "softDeleteLoop fuel now (?w1, n + length ?B)
              = Some (w', n + length ?B + length (filter (expired_not_deleted now) (files ?w1)))"
      and fs: "files w' = map (\<lambda>f. if expired_not_deleted now f then f\<lparr>deletedAt := Some now\<rparr> else f) (files ?w1)"
      and acts: "mset (deletionActivities w')
                  = mset (deletionActivities ?w1)
                    + mset (map soft_entry (filter (expired_not_deleted now) (files ?w1)))"
      and rest: "activities w' = activities ?w1" "objects w' = objects ?w1"
                "s3_sent w' = s3_sent ?w1" "slept_ms w' = slept_ms ?w1"
      by blast
    have loop: "softDeleteLoop (Suc fuel) now (w, n) = Some (w', n + length ?E)"
      using False batch run E1 len by (simp add: Let_def add.assoc del: softDeleteFiles.simps)
    have rows: "files w' = map (\<lambda>f. if expired_not_deleted now f then f\<lparr>deletedAt := Some now\<rparr> else f) (files w)"
      using fs mark_all_after_batch [OF allE] by simp
    have entries: "mset (map soft_entry ?B) + mset (map soft_entry (filter (\<lambda>f. f \<notin> set ?B) ?E))
              = mset (map soft_entry ?E)"
      using split by (metis image_mset_union mset_map)
    from acts have "mset (deletionActivities w')
           = mset (deletionActivities ?w1) + mset (map soft_entry (filter (\<lambda>f. f \<notin> set ?B) ?E))"
      by (simp only: E1)
    also have "mset (deletionActivities ?w1) = mset (deletionActivities w) + mset (map soft_entry ?B)"
      by simp
    finally have log: "mset (deletionActivities w')
                    = mset (deletionActivities w) + mset (map soft_entry ?E)"
      by (simp only: add.assoc entries)
    from rest have rest': "activities w' = activities w" "objects w' = objects w"
                "s3_sent w' = s3_sent w" "slept_ms w' = slept_ms w"
      by simp_all
    from loop rows log rest' show ?thesis by blast
  qed
qed

lemma one_row_per_id:
  assumes "distinct (map file_id E)" and "f \<in> set E"
  shows "filter (\<lambda>g. file_id g = file_id f) E = [f]"
proof -
  have e: "(\<lambda>g. file_id g = file_id f) = (\<lambda>g. file_id f = file_id g)" by (rule ext) (rule eq_commute)
  show ?thesis by (subst e) (rule filter_key_distinct [OF assms])
qed

lemma soft_entries_of_batch:
  assumes "distinct (map file_id E)" and "f \<in> set E"
  shows "length (filter (\<lambda>a. da_fileId a = file_id f \<and> da_status a = SUCCESS_SOFT_DELETE)
                   (map soft_entry E)) = 1"
proof -
  have "filter (\<lambda>a. da_fileId a = file_id f \<and> da_status a = SUCCESS_SOFT_DELETE) (map soft_entry E)
          = map soft_entry (filter (\<lambda>g. file_id g = file_id f) E)"
    by (simp add: filter_map comp_def soft_entry_def deletionActivity_data_def)
  with one_row_per_id [OF assms] show ?thesis by simp
qed

lemma distinct_ids_filter:
  "distinct (map file_id fs) \<Longrightarrow> distinct (map file_id (filter P fs))"
  by (simp add: distinct_map_filter)

lemma length_filter_mset_eq:
  assumes "mset A' = mset A + mset M"
  shows "length (filter P A') = length (filter P A) + length (filter P M)"
proof -
  have "size (filter_mset P (mset A')) = size (filter_mset P (mset A + mset M))"
    by (simp only: assms)
  then show ?thesis
    by (simp only: filter_union_mset size_union mset_filter [symmetric] size_mset)
qed

text \<open>
  Claim C5. With file ids unique (the primary key), one soft-delete drain comes back, and
  then every row that had \<^verbatim>\<open>expiry < now\<close> and \<^verbatim>\<open>deletedAt\<close> null carries
  \<^verbatim>\<open>deletedAt = now\<close>, every other row is unchanged, the count is the number of those
  rows, and the audit log has grown by exactly one \<^verbatim>\<open>SUCCESS_SOFT_DELETE\<close> entry for each
  of them and by nothing else. When the conditional update of a fetched row finds no row
  with that id and a null \<^verbatim>\<open>deletedAt\<close> (another run has marked it since the fetch), the
  row is skipped: the state and the count are what they were, no audit entry is written, and
  the loop goes on with the next row.
\<close>

theorem softDelete_drain:
  "(distinct (map file_id (files w)) \<longrightarrow>
      (\<exists>fuel w' n.
          softDeleteExpiredFiles fuel now w = Some (w', \<lparr>softDeletedCount = n\<rparr>)
        \<and> n = length (filter (expired_not_deleted now) (files w))
        \<and> files w' = map (\<lambda>f. if expired_not_deleted now f then f\<lparr>deletedAt := Some now\<rparr> else f)
                         (files w)
        \<and> mset (deletionActivities w')
            = mset (deletionActivities w)
              + mset (map (\<lambda>f. deletionActivity_data f ''expired'' SUCCESS_SOFT_DELETE None)
                       (filter (expired_not_deleted now) (files w)))
        \<and> (\<forall>f \<in> set (files w). expired_not_deleted now f \<longrightarrow>
              f\<lparr>deletedAt := Some now\<rparr> \<in> set (files w')
            \<and> soft_deleted_entries (file_id f) w' = soft_deleted_entries (file_id f) w + 1)))
   \<and> (\<not> list_ex (\<lambda>g. file_id g = file_id file \<and> deletedAt g = None) (files v) \<longrightarrow>
        softDeleteFiles now (file # rest) (v, k) = softDeleteFiles now rest (v, k))"
proof (intro conjI impI)
  assume d: "distinct (map file_id (files w))"
  let ?E = "filter (expired_not_deleted now) (files w)"
  from softDeleteLoop_drains [OF d, of now 0]
  obtain fuel w' where
    run: "softDeleteLoop fuel now (w, 0) = Some (w', 0 + length ?E)"
    and rows: "files w' = map (\<lambda>f. if expired_not_deleted now f then f\<lparr>deletedAt := Some now\<rparr> else f) (files w)"
    and log: "mset (deletionActivities w') = mset (deletionActivities w) + mset (map soft_entry ?E)"
    by blast
  have r1: "softDeleteExpiredFiles fuel now w = Some (w', \<lparr>softDeletedCount = length ?E\<rparr>)"
    using run by (simp add: softDeleteExpiredFiles_def)
  have se: "soft_entry = (\<lambda>f. deletionActivity_data f ''expired'' SUCCESS_SOFT_DELETE None)"
    by (rule ext) (simp add: soft_entry_def)
  have per: "\<forall>f \<in> set (files w). expired_not_deleted now f \<longrightarrow>
              f\<lparr>deletedAt := Some now\<rparr> \<in> set (files w')
            \<and> soft_deleted_entries (file_id f) w' = soft_deleted_entries (file_id f) w + 1"
  proof (intro ballI impI conjI)
    fix f assume f: "f \<in> set (files w)" and e: "expired_not_deleted now f"
    from f e show "f\<lparr>deletedAt := Some now\<rparr> \<in> set (files w')"
      unfolding rows by (force simp: image_iff)
    from f e have fE: "f \<in> set ?E" by simp
    have dE: "distinct (map file_id ?E)" using d by (rule distinct_ids_filter)
    from length_filter_mset_eq [OF log]
    have "soft_deleted_entries (file_id f) w'
            = soft_deleted_entries (file_id f) w
              + length (filter (\<lambda>a. da_fileId a = file_id f \<and> da_status a = SUCCESS_SOFT_DELETE)
                          (map soft_entry ?E))"
      by (simp only: soft_deleted_entries_def)
    with soft_entries_of_batch [OF dE fE]
    show "soft_deleted_entries (file_id f) w' = soft_deleted_entries (file_id f) w + 1"
      by (simp only:)
  qed
  from r1 rows log [unfolded se] per
  show "\<exists>fuel w' n.
          softDeleteExpiredFiles fuel now w = Some (w', \<lparr>softDeletedCount = n\<rparr>)
        \<and> n = length (filter (expired_not_deleted now) (files w))
        \<and> files w' = map (\<lambda>f. if expired_not_deleted now f then f\<lparr>deletedAt := Some now\<rparr> else f)
                         (files w)
        \<and> mset (deletionActivities w')
            = mset (deletionActivities w)
              + mset (map (\<lambda>f. deletionActivity_data f ''expired'' SUCCESS_SOFT_DELETE None)
                       (filter (expired_not_deleted now) (files w)))
        \<and> (\<forall>f \<in> set (files w). expired_not_deleted now f \<longrightarrow>
              f\<lparr>deletedAt := Some now\<rparr> \<in> set (files w')
            \<and> soft_deleted_entries (file_id f) w' = soft_deleted_entries (file_id f) w + 1)"
    by blast
next
  assume "\<not> list_ex (\<lambda>g. file_id g = file_id file \<and> deletedAt g = None) (files v)"
  then show "softDeleteFiles now (file # rest) (v, k) = softDeleteFiles now rest (v, k)"
    by (simp add: file_update_deletedAt_def P2025_def)
qed

theorem softDelete_drain_witness:
  "distinct (map file_id (files one_expired_world))
   \<and> (\<exists>fuel w' n.
          softDeleteExpiredFiles fuel 1000 one_expired_world = Some (w', \<lparr>softDeletedCount = n\<rparr>)
        \<and> n = 1
        \<and> files w' = [soft_deleted_file ''f1'' ''k1'' 1000]
        \<and> soft_deleted_entries ''f1'' w' = 1)
   \<and> \<not> list_ex (\<lambda>g. file_id g = file_id (active_file ''f1'' ''k1'' 0) \<and> deletedAt g = None)
            (files unlogged_world)
   \<and> softDeleteFiles 1000 [active_file ''f1'' ''k1'' 0] (unlogged_world, 0) = (unlogged_world, 0)"
proof -
  note t = softDelete_drain [of one_expired_world 1000 "active_file ''f1'' ''k1'' 0"
                               unlogged_world "[]" 0]
  have d: "distinct (map file_id (files one_expired_world))"
    by (simp add: one_expired_world_def)
  have q: "\<not> list_ex (\<lambda>g. file_id g = file_id (active_file ''f1'' ''k1'' 0) \<and> deletedAt g = None)
            (files unlogged_world)"
    by (simp add: unlogged_world_def soft_deleted_file_def)
  have fs: "files one_expired_world = [active_file ''f1'' ''k1'' 0]"
    by (simp add: one_expired_world_def)
  have e: "expired_not_deleted 1000 (active_file ''f1'' ''k1'' 0)"
    by (simp add: expired_not_deleted_def active_file_def)
  have m: "(active_file ''f1'' ''k1'' 0)\<lparr>deletedAt := Some 1000\<rparr> = soft_deleted_file ''f1'' ''k1'' 1000"
    by (simp add: active_file_def soft_deleted_file_def)
  have i: "file_id (active_file ''f1'' ''k1'' 0) = ''f1''" by (simp add: active_file_def)
  have z: "soft_deleted_entries ''f1'' one_expired_world = 0"
    by (simp add: soft_deleted_entries_def one_expired_world_def)
  from t [THEN conjunct1, rule_format, OF d]
  obtain fuel w' n where
    r: "softDeleteExpiredFiles fuel 1000 one_expired_world = Some (w', \<lparr>softDeletedCount = n\<rparr>)"
    and n: "n = length (filter (expired_not_deleted 1000) (files one_expired_world))"
    and rows: "files w' = map (\<lambda>f. if expired_not_deleted 1000 f then f\<lparr>deletedAt := Some 1000\<rparr> else f)
                         (files one_expired_world)"
    and per: "\<forall>f \<in> set (files one_expired_world). expired_not_deleted 1000 f \<longrightarrow>
              f\<lparr>deletedAt := Some 1000\<rparr> \<in> set (files w')
            \<and> soft_deleted_entries (file_id f) w' = soft_deleted_entries (file_id f) one_expired_world + 1"
    by blast
  from n have n1: "n = 1" by (simp add: fs e)
  from rows have rows1: "files w' = [soft_deleted_file ''f1'' ''k1'' 1000]" by (simp add: fs e m)
  from per have c1: "soft_deleted_entries ''f1'' w' = 1" by (simp add: fs e i z)
  from r n1 rows1 c1 have ex: "\<exists>fuel w' n.
          softDeleteExpiredFiles fuel 1000 one_expired_world = Some (w', \<lparr>softDeletedCount = n\<rparr>)
        \<and> n = 1
        \<and> files w' = [soft_deleted_file ''f1'' ''k1'' 1000]
        \<and> soft_deleted_entries ''f1'' w' = 1"
    by blast
  from t [THEN conjunct2, rule_format, OF q]
  have skip: "softDeleteFiles 1000 [active_file ''f1'' ''k1'' 0] (unlogged_world, 0) = (unlogged_world, 0)"
    by simp
  from d ex q skip show ?thesis by blast
qed

subsection \<open>Stage 2 under a partial failure of the batched delete\<close>

lemma five_world_retry:
  "retryLoop two_keys_fail 0 \<lparr>deleted = [], errors = map s3Key five_files\<rparr> five_world
     = (\<lparr>deleted = [], errors = [''k4'', ''k5'']\<rparr>,
        five_world\<lparr>objects := [''k4'', ''k5''],
                    s3_sent := [DeleteObjects [''k1'', ''k2'', ''k3'', ''k4'', ''k5''],
                                DeleteObjects [''k4'', ''k5''], DeleteObjects [''k4'', ''k5'']],
                    slept_ms := 15000\<rparr>)"
  by (simp add: retryLoop.simps RETRY_ATTEMPTS_def RETRY_DELAY_MS_def deleteS3Objects_def
        s3_send_delete_def two_keys_fail_def five_world_def five_files_def soft_deleted_file_def)

lemma hardDeleteFiles_all_failed:
  "list_all (\<lambda>f. list_ex (\<lambda>g. file_id g = file_id f) (files w)) fs \<Longrightarrow>
   hardDeleteFiles [] fs (w, n)
     = (w\<lparr>deletionActivities := deletionActivities w
            @ map (\<lambda>f. deletionActivity_data f ''hard_delete'' FAILED_S3
                          (Some (Error ''S3 deletion failed after retries''))) fs\<rparr>, n)"
proof (induction fs arbitrary: w)
  case Nil
  show ?case by simp
next
  case (Cons f fs)
  from Cons.prems have ex: "list_ex (\<lambda>g. file_id g = file_id f) (files w)" by simp
  let ?w1 = "w\<lparr>deletionActivities := deletionActivities w
               @ [deletionActivity_data f ''hard_delete'' FAILED_S3
                    (Some (Error ''S3 deletion failed after retries''))]\<rparr>"
  from Cons.prems have "list_all (\<lambda>f. list_ex (\<lambda>g. file_id g = file_id f) (files ?w1)) fs"
    by simp
  from Cons.IH [OF this] show ?case
    by (simp add: logDeletionActivity_existing [OF ex])
qed

text \<open>
  Claim C1: after a partial failure of the batched delete only the failed keys are retried,
  and in the end every key that was deleted remotely at some attempt has its row removed
  and a \<^verbatim>\<open>SUCCESS_HARD_DELETE\<close> entry, every key still failing keeps its row and gets a
  \<^verbatim>\<open>FAILED_S3\<close> entry. The code on the claim's own scenario: five soft-deleted files
  past retention, and a backend that deletes three of the keys and reports the other two
  under \<^verbatim>\<open>Errors\<close> on every attempt. Stage 2 fetches the five rows and sends three commands; the second and the
  third carry exactly the two failed keys. \<^verbatim>\<open>deleteS3Objects\<close> answers a partial failure
  with \<^verbatim>\<open>deleted: []\<close>, and each attempt replaces the result of the one before, so the set
  of successfully deleted keys is empty at the end: the three objects are gone from the
  bucket, yet all five rows stay, all five get a \<^verbatim>\<open>FAILED_S3\<close> entry, no
  \<^verbatim>\<open>SUCCESS_HARD_DELETE\<close> entry is written and the count stays 0.
\<close>

theorem hardDelete_partial_failure_purges_nothing:
  "file_findMany (deleted_before 100000) BATCH_SIZE five_world = five_files
   \<and> hardDeleteBatch two_keys_fail five_files (five_world, 0)
     = (five_world\<lparr>deletionActivities :=
                      map (\<lambda>f. deletionActivity_data f ''hard_delete'' FAILED_S3
                                 (Some (Error ''S3 deletion failed after retries''))) five_files,
                    objects := [''k4'', ''k5''],
                    s3_sent := [DeleteObjects [''k1'', ''k2'', ''k3'', ''k4'', ''k5''],
                                DeleteObjects [''k4'', ''k5''], DeleteObjects [''k4'', ''k5'']],
                    slept_ms := 15000\<rparr>, 0)"
proof -
  have ex: "list_all (\<lambda>f. list_ex (\<lambda>g. file_id g = file_id f)
              (files (five_world\<lparr>objects := [''k4'', ''k5''],
                    s3_sent := [DeleteObjects [''k1'', ''k2'', ''k3'', ''k4'', ''k5''],
                                DeleteObjects [''k4'', ''k5''], DeleteObjects [''k4'', ''k5'']],
                    slept_ms := 15000\<rparr>))) five_files"
    by (simp add: five_world_def five_files_def soft_deleted_file_def)
  show ?thesis
    by (simp add: five_files_fetched hardDeleteBatch_def five_world_retry
          hardDeleteFiles_all_failed [OF ex])
       (simp add: five_world_def)
qed

subsection \<open>Stage 2 and the foreign key of the audit table\<close>

lemma one_expired_soft_deleted:
  "softDeleteExpiredFiles 2 1000 one_expired_world
     = Some (one_expired_world
               \<lparr>files := [soft_deleted_file ''f1'' ''k1'' 1000],
                deletionActivities :=
                  [deletionActivity_data (active_file ''f1'' ''k1'' 0) ''expired''
                     SUCCESS_SOFT_DELETE None]\<rparr>,
             \<lparr>softDeletedCount = 1\<rparr>)"
proof -
  have f1: "file_findMany (expired_not_deleted 1000) BATCH_SIZE one_expired_world
              = [active_file ''f1'' ''k1'' 0]"
    by (simp add: file_findMany_def expired_not_deleted_def BATCH_SIZE_def one_expired_world_def
          active_file_def)
  have b: "softDeleteFiles 1000 [active_file ''f1'' ''k1'' 0] (one_expired_world, 0)
             = (one_expired_world
                  \<lparr>files := [soft_deleted_file ''f1'' ''k1'' 1000],
                   deletionActivities :=
                     [deletionActivity_data (active_file ''f1'' ''k1'' 0) ''expired''
                        SUCCESS_SOFT_DELETE None]\<rparr>, 1)"
    by (simp add: file_update_deletedAt_def logDeletionActivity_def deletionActivity_create_def
          deletionActivity_data_def one_expired_world_def active_file_def soft_deleted_file_def)
  have f2: "file_findMany (expired_not_deleted 1000) BATCH_SIZE
              (one_expired_world
                  \<lparr>files := [soft_deleted_file ''f1'' ''k1'' 1000],
                   deletionActivities :=
                     [deletionActivity_data (active_file ''f1'' ''k1'' 0) ''expired''
                        SUCCESS_SOFT_DELETE None]\<rparr>) = []"
    by (simp add: file_findMany_def expired_not_deleted_def soft_deleted_file_def)
  have "softDeleteLoop (Suc (Suc 0)) 1000 (one_expired_world, 0)
          = Some (one_expired_world
                  \<lparr>files := [soft_deleted_file ''f1'' ''k1'' 1000],
                   deletionActivities :=
                     [deletionActivity_data (active_file ''f1'' ''k1'' 0) ''expired''
                        SUCCESS_SOFT_DELETE None]\<rparr>, 1)"
    by (simp add: f1 b f2 del: softDeleteFiles.simps)
  then show ?thesis
    by (simp add: softDeleteExpiredFiles_def numeral_2_eq_2)
qed

lemma logged_file_not_purged:
  "hardDeleteBatch all_keys_deleted [soft_deleted_file ''f1'' ''k1'' 1000]
      (one_expired_world
         \<lparr>files := [soft_deleted_file ''f1'' ''k1'' 1000],
          deletionActivities :=
            [deletionActivity_data (active_file ''f1'' ''k1'' 0) ''expired''
               SUCCESS_SOFT_DELETE None]\<rparr>, 0)
     = (one_expired_world
         \<lparr>files := [soft_deleted_file ''f1'' ''k1'' 1000],
          deletionActivities :=
            [deletionActivity_data (active_file ''f1'' ''k1'' 0) ''expired''
               SUCCESS_SOFT_DELETE None,
             deletionActivity_data (soft_deleted_file ''f1'' ''k1'' 1000) ''hard_delete''
               FAILED_DB (Some P2003)],
          objects := [], s3_sent := [DeleteObjects [''k1'']]\<rparr>, 0)"
proof -
  have r: "retryLoop all_keys_deleted 0
             \<lparr>deleted = [], errors = [s3Key (soft_deleted_file ''f1'' ''k1'' 1000)]\<rparr>
             (one_expired_world
               \<lparr>files := [soft_deleted_file ''f1'' ''k1'' 1000],
                deletionActivities :=
                  [deletionActivity_data (active_file ''f1'' ''k1'' 0) ''expired''
                     SUCCESS_SOFT_DELETE None]\<rparr>)
           = (\<lparr>deleted = [''k1''], errors = []\<rparr>,
              one_expired_world
               \<lparr>files := [soft_deleted_file ''f1'' ''k1'' 1000],
                deletionActivities :=
                  [deletionActivity_data (active_file ''f1'' ''k1'' 0) ''expired''
                     SUCCESS_SOFT_DELETE None],
                objects := [], s3_sent := [DeleteObjects [''k1'']]\<rparr>)"
    by (simp add: retryLoop.simps RETRY_ATTEMPTS_def deleteS3Objects_def s3_send_delete_def
          all_keys_deleted_def one_expired_world_def soft_deleted_file_def)
  show ?thesis
    by (simp add: hardDeleteBatch_def r)
       (simp add: file_delete_def logDeletionActivity_def deletionActivity_create_def
          deletionActivity_data_def one_expired_world_def soft_deleted_file_def active_file_def)
qed

lemma unlogged_file_purged_silently:
  "hardDeleteBatch all_keys_deleted [soft_deleted_file ''f1'' ''k1'' 1000] (unlogged_world, 0)
     = (unlogged_world\<lparr>files := [], objects := [], s3_sent := [DeleteObjects [''k1'']]\<rparr>, 1)"
proof -
  have r: "retryLoop all_keys_deleted 0
             \<lparr>deleted = [], errors = [s3Key (soft_deleted_file ''f1'' ''k1'' 1000)]\<rparr>
             unlogged_world
           = (\<lparr>deleted = [''k1''], errors = []\<rparr>,
              unlogged_world\<lparr>objects := [], s3_sent := [DeleteObjects [''k1'']]\<rparr>)"
    by (simp add: retryLoop.simps RETRY_ATTEMPTS_def deleteS3Objects_def s3_send_delete_def
          all_keys_deleted_def unlogged_world_def soft_deleted_file_def)
  show ?thesis
    by (simp add: hardDeleteBatch_def r)
       (simp add: file_delete_def logDeletionActivity_def deletionActivity_create_def
          deletionActivity_data_def unlogged_world_def soft_deleted_file_def)
qed

lemma file_delete_fk:
  assumes "file_delete i w = Inr w'" and "fk_holds w"
  shows "fk_holds w'"
proof -
  from assms(1) have none: "\<not> list_ex (\<lambda>a. da_fileId a = i) (deletionActivities w)"
    and w': "w' = w\<lparr>files := filter (\<lambda>f. file_id f \<noteq> i) (files w),
                     activities := map (\<lambda>a. if act_fileId a = Some i
                                           then a\<lparr>act_fileId := None\<rparr> else a) (activities w)\<rparr>"
    by (auto simp: file_delete_def split: if_splits)
  show ?thesis
    unfolding fk_holds_def list_all_iff
  proof
    fix a assume a: "a \<in> set (deletionActivities w')"
    then have a0: "a \<in> set (deletionActivities w)" by (simp add: w')
    with none have ne: "da_fileId a \<noteq> i" by (auto simp: list_ex_iff)
    from a0 assms(2) obtain f where "f \<in> set (files w)" "file_id f = da_fileId a"
      by (auto simp: fk_holds_def list_all_iff list_ex_iff)
    with ne show "list_ex (\<lambda>f. file_id f = da_fileId a) (files w')"
      by (auto simp: w' list_ex_iff)
  qed
qed

lemma logDeletionActivity_fk:
  "fk_holds w \<Longrightarrow> fk_holds (logDeletionActivity f r s e w)"
  by (simp add: logDeletionActivity_def deletionActivity_create_def fk_holds_def)

lemma hardDeleteFiles_fk:
  "fk_holds w \<Longrightarrow> fk_holds (fst (hardDeleteFiles ks fs (w, n)))"
proof (induction fs arbitrary: w n)
  case Nil
  then show ?case by simp
next
  case (Cons f fs)
  show ?case
  proof (cases "s3Key f \<in> set ks")
    case False
    with Cons.IH [OF logDeletionActivity_fk [OF Cons.prems]] show ?thesis by simp
  next
    case True
    show ?thesis
    proof (cases "file_delete (file_id f) w")
      case (Inl dbError)
      with True Cons.IH [OF logDeletionActivity_fk [OF Cons.prems]] show ?thesis by simp
    next
      case (Inr w1)
      from file_delete_fk [OF Inr Cons.prems] have "fk_holds w1" .
      from Cons.IH [OF logDeletionActivity_fk [OF this]] True Inr show ?thesis by simp
    qed
  qed
qed

lemma hardDeleteBatch_fk:
  assumes "fk_holds w"
  shows "fk_holds (fst (hardDeleteBatch s3 batch (w, n)))"
proof -
  obtain r w' where rl: "retryLoop s3 0 \<lparr>deleted = [], errors = map s3Key batch\<rparr> w = (r, w')"
    by (cases "retryLoop s3 0 \<lparr>deleted = [], errors = map s3Key batch\<rparr> w")
  from retryLoop_tables [of s3 0 "\<lparr>deleted = [], errors = map s3Key batch\<rparr>" w] rl
  have "files w' = files w" "deletionActivities w' = deletionActivities w" by simp_all
  with assms have "fk_holds w'" by (simp add: fk_holds_def)
  from hardDeleteFiles_fk [OF this, of "deleted r" batch n] rl show ?thesis
    by (simp add: hardDeleteBatch_def)
qed

lemma hardDeleteLoop_fk:
  "fk_holds w \<Longrightarrow> hardDeleteLoop fuel s3 cutoff (w, n) = Some (w', n') \<Longrightarrow> fk_holds w'"
proof (induction fuel arbitrary: w n)
  case 0
  then show ?case by simp
next
  case (Suc fuel)
  let ?batch = "file_findMany (deleted_before cutoff) BATCH_SIZE w"
  show ?case
  proof (cases "?batch = []")
    case True
    with Suc.prems show ?thesis by simp
  next
    case False
    obtain w1 n1 where hb: "hardDeleteBatch s3 ?batch (w, n) = (w1, n1)"
      by (cases "hardDeleteBatch s3 ?batch (w, n)")
    from hardDeleteBatch_fk [OF Suc.prems(1), of s3 ?batch n] hb have "fk_holds w1" by simp
    moreover from Suc.prems(2) False hb have "hardDeleteLoop fuel s3 cutoff (w1, n1) = Some (w', n')"
      by (simp add: Let_def)
    ultimately show ?thesis by (rule Suc.IH)
  qed
qed

lemma purged_file_has_no_audit_entry:
  assumes "fk_holds w"
      and "hardDeleteSoftDeletedFiles fuel s3 retention now w = Some (w', res)"
      and "\<not> list_ex (\<lambda>f. file_id f = i) (files w')"
  shows "\<not> list_ex (\<lambda>a. da_fileId a = i) (deletionActivities w')"
proof -
  from assms(2) obtain n' where "hardDeleteLoop fuel s3 (now - retention * 60 * 1000) (w, 0) = Some (w', n')"
    by (auto simp: hardDeleteSoftDeletedFiles_def Let_def split: option.splits)
  from hardDeleteLoop_fk [OF assms(1) this] have "fk_holds w'" .
  with assms(3) show ?thesis
    by (auto simp: fk_holds_def list_all_iff list_ex_iff)
qed

text \<open>
  Claim C2: for every object stage 2 purges, the removal of the row succeeds and the audit
  entries of the object, the \<^verbatim>\<open>SUCCESS_HARD_DELETE\<close> entry written after the removal
  included, survive it. The code on two runs. First run: a file past its expiry is soft-deleted by stage 1, which
  writes its audit entry; when stage 2 later has deleted the object in the bucket, the
  removal of the row is rejected by the foreign key (P2003), a \<^verbatim>\<open>FAILED_DB\<close> entry is
  written and the row stays. Second run: a soft-deleted file that no audit entry refers to
  is removed by stage 2, and then the insert of the \<^verbatim>\<open>SUCCESS_HARD_DELETE\<close> entry is
  rejected by the same foreign key and dropped by \<^verbatim>\<open>logDeletionActivity\<close>: the row is
  gone and the audit log holds no entry for it. In no run does a purged object keep an
  audit entry (\<open>purged_file_has_no_audit_entry\<close>).
\<close>

theorem hardDelete_row_removal_excludes_audit_entry:
  "softDeleteExpiredFiles 2 1000 one_expired_world
     = Some (one_expired_world
               \<lparr>files := [soft_deleted_file ''f1'' ''k1'' 1000],
                deletionActivities :=
                  [deletionActivity_data (active_file ''f1'' ''k1'' 0) ''expired''
                     SUCCESS_SOFT_DELETE None]\<rparr>,
             \<lparr>softDeletedCount = 1\<rparr>)
   \<and> hardDeleteBatch all_keys_deleted [soft_deleted_file ''f1'' ''k1'' 1000]
      (one_expired_world
         \<lparr>files := [soft_deleted_file ''f1'' ''k1'' 1000],
          deletionActivities :=
            [deletionActivity_data (active_file ''f1'' ''k1'' 0) ''expired''
               SUCCESS_SOFT_DELETE None]\<rparr>, 0)
     = (one_expired_world
         \<lparr>files := [soft_deleted_file ''f1'' ''k1'' 1000],
          deletionActivities :=
            [deletionActivity_data (active_file ''f1'' ''k1'' 0) ''expired''
               SUCCESS_SOFT_DELETE None,
             deletionActivity_data (soft_deleted_file ''f1'' ''k1'' 1000) ''hard_delete''
               FAILED_DB (Some P2003)],
          objects := [], s3_sent := [DeleteObjects [''k1'']]\<rparr>, 0)
   \<and> hardDeleteBatch all_keys_deleted [soft_deleted_file ''f1'' ''k1'' 1000] (unlogged_world, 0)
     = (unlogged_world\<lparr>files := [], objects := [], s3_sent := [DeleteObjects [''k1'']]\<rparr>, 1)"
  by (simp only: one_expired_soft_deleted logged_file_not_purged unlogged_file_purged_silently)

subsection \<open>Stage 2 when the backend keeps failing\<close>

text \<open>
  Claim C4: one invocation of the hard-delete drain terminates for every state; an item
  that still fails after the retry ceiling is left for the next invocation. The code on the
  state and the backend of claim C1: the rows whose keys keep failing stay
  in the table with their \<^verbatim>\<open>deletedAt\<close>, so the next fetch of the same invocation returns
  them again; the drain of stage 2 does not come back, whatever the fuel.
\<close>

theorem hardDelete_drain_never_returns:
  "\<forall>fuel. hardDeleteSoftDeletedFiles fuel two_keys_fail 10 700000 five_world = None"
  by (simp add: hardDeleteSoftDeletedFiles_def five_world_stuck)

text \<open>
  Claim C9: \<^verbatim>\<open>runCleanup\<close> returns the two counts and does not throw for per-item
  failures. The code on the same state and backend: stage 1 finds nothing to do and comes back,
  stage 2 does not, and \<^verbatim>\<open>runCleanup\<close> has no result, whatever the fuel.
\<close>

theorem runCleanup_never_returns:
  "\<forall>fuel. runCleanup fuel two_keys_fail 10 700000 700000 five_world = None"
proof
  fix fuel
  show "runCleanup fuel two_keys_fail 10 700000 700000 five_world = None"
  proof (cases fuel)
    case 0
    then show ?thesis by (simp add: runCleanup_def softDeleteExpiredFiles_def)
  next
    case (Suc k)
    have "softDeleteExpiredFiles (Suc k) 700000 five_world = Some (five_world, \<lparr>softDeletedCount = 0\<rparr>)"
      by (simp add: softDeleteExpiredFiles_def five_world_nothing_expired)
    moreover have "hardDeleteSoftDeletedFiles (Suc k) two_keys_fail 10 700000 five_world = None"
      by (simp add: hardDeleteSoftDeletedFiles_def five_world_stuck del: hardDeleteLoop.simps)
    ultimately show ?thesis using Suc
      by (simp add: runCleanup_def)
  qed
qed

section \<open>Properties of request validation and of the upload controller\<close>

lemmas schema_defs =
  validate_complete_def validation_errors_def value_of_body_def multipart_is_true_def
  joi_string_def joi_string_max_def joi_integer_min_def joi_any_def optional_allow_null_def
  string_of_field_def option_of_field_def List.map_filter_def


lemma empty_parts_valid:
  "validate_complete (multipart_body (Val []))
     = Inr \<lparr>v_s3Key = ''k1'', v_mode = Multipart ''up1'' [], v_fileName = ''a.pdf'',
            v_mimeType = ''application/pdf'', v_size = 1024, v_encryptedKeyMetadata = None,
            v_folderId = None, v_expiry = None\<rparr>"
  by (simp add: schema_defs multipart_body_def)

lemma two_parts_valid:
  "validate_complete
     (multipart_body (Val [Item (Val (IntegerNum 2)) (Val ''e2''), Item (Val (IntegerNum 1)) (Val ''e1'')]))
     = Inr \<lparr>v_s3Key = ''k1'',
            v_mode = Multipart ''up1'' [\<lparr>partNumber = 2, eTag = ''e2''\<rparr>, \<lparr>partNumber = 1, eTag = ''e1''\<rparr>],
            v_fileName = ''a.pdf'',
            v_mimeType = ''application/pdf'', v_size = 1024, v_encryptedKeyMetadata = None,
            v_folderId = None, v_expiry = None\<rparr>"
  by (simp add: schema_defs multipart_body_def)

lemmas controller_defs =
  complete_def complete_try_def assemble_def completeMultipart_def abortMultipart_def
  completeMultipart_command_def sort_parts_def to_s3_part_def empty_store_def
  file_create_def activity_create_def

lemma empty_parts_reach_backend:
  "complete backend_rejects_assembly ''bucket'' ''f1''
      \<lparr>auth_userId = Some ''u1'', body = multipart_body (Val [])\<rparr> empty_world
     = (NextError (Error ''Multipart upload failed and aborted: assembly failed''),
        empty_world\<lparr>s3_sent :=
           [CompleteMultipartUpload \<lparr>Bucket = ''bucket'', Key = ''k1'', UploadId = ''up1'', Parts = []\<rparr>,
            AbortMultipartUpload ''k1'' ''up1'']\<rparr>)"
  by (simp add: controller_defs empty_parts_valid empty_world_def backend_rejects_assembly_def)

lemma empty_parts_accepted:
  "complete backend_ok ''bucket'' ''f1''
      \<lparr>auth_userId = Some ''u1'', body = multipart_body (Val [])\<rparr> empty_world
     = (Status201 uploaded_row,
        empty_world\<lparr>files := [uploaded_row],
              activities := [\<lparr>act_type = ''FILE_UPLOADED'', act_message = ''File uploaded: a.pdf'',
                     act_userId = Some ''u1'', act_fileId = Some ''f1'', act_size = 1024\<rparr>],
              objects := [''k1''],
              s3_sent := [CompleteMultipartUpload
                            \<lparr>Bucket = ''bucket'', Key = ''k1'', UploadId = ''up1'', Parts = []\<rparr>]\<rparr>)"
  by (simp add: controller_defs empty_parts_valid empty_world_def backend_ok_def uploaded_row_def)

lemma item_errors_nonempty: "\<not> valid_item item \<Longrightarrow> item_errors (i, item) \<noteq> []"
  by (cases item) auto

lemma items_errors_nonempty:
  "\<not> list_all valid_item items \<Longrightarrow> concat (map item_errors (enumerate n items)) \<noteq> []"
proof (induction items arbitrary: n)
  case Nil
  then show ?case by simp
next
  case (Cons item items)
  show ?case
  proof (cases "valid_item item")
    case True
    with Cons.prems have "\<not> list_all valid_item items" by simp
    from Cons.IH [OF this, of "Suc n"] show ?thesis by simp
  next
    case False
    from item_errors_nonempty [OF this, of n] show ?thesis by simp
  qed
qed

lemma parts_errors_reported:
  assumes "\<not> parts_accepted b"
  shows "validation_errors b \<noteq> []"
proof -
  have "(if multipart_is_true b
      then (case b_parts b of
              Val items \<Rightarrow> concat (map item_errors (enumerate 0 items))
            | _ \<Rightarrow> [AtKey ''parts''])
      else (if b_parts b = Absent then [] else [AtKey ''parts''])) \<noteq> []"
  proof (cases "multipart_is_true b")
    case False
    with assms show ?thesis by (simp add: parts_accepted_def)
  next
    case True
    show ?thesis
    proof (cases "b_parts b")
      case (Val items)
      with True assms have "\<not> list_all valid_item items" by (simp add: parts_accepted_def)
      from items_errors_nonempty [OF this, of 0] True Val show ?thesis by simp
    qed (simp_all add: True)
  qed
  then show ?thesis
    unfolding validation_errors_def by (simp only: append_is_Nil_conv) blast
qed








lemma abort_failure_masks:
  "complete backend_rejects_all ''bucket'' ''f1''
      \<lparr>auth_userId = Some ''u1'',
       body = multipart_body (Val [Item (Val (IntegerNum 2)) (Val ''e2''),
                                   Item (Val (IntegerNum 1)) (Val ''e1'')])\<rparr> empty_world
     = (NextError (Error ''abort failed''),
        empty_world\<lparr>s3_sent :=
           [CompleteMultipartUpload
              \<lparr>Bucket = ''bucket'', Key = ''k1'', UploadId = ''up1'',
               Parts = [\<lparr>ETag = ''e1'', PartNumber = 1\<rparr>, \<lparr>ETag = ''e2'', PartNumber = 2\<rparr>]\<rparr>,
            AbortMultipartUpload ''k1'' ''up1'', AbortMultipartUpload ''k1'' ''up1'']\<rparr>)"
  by (simp add: controller_defs two_parts_valid empty_world_def backend_rejects_all_def)

lemma abort_success_keeps_error:
  "complete backend_rejects_assembly ''bucket'' ''f1''
      \<lparr>auth_userId = Some ''u1'',
       body = multipart_body (Val [Item (Val (IntegerNum 2)) (Val ''e2''),
                                   Item (Val (IntegerNum 1)) (Val ''e1'')])\<rparr> empty_world
     = (NextError (Error ''Multipart upload failed and aborted: assembly failed''),
        empty_world\<lparr>s3_sent :=
           [CompleteMultipartUpload
              \<lparr>Bucket = ''bucket'', Key = ''k1'', UploadId = ''up1'',
               Parts = [\<lparr>ETag = ''e1'', PartNumber = 1\<rparr>, \<lparr>ETag = ''e2'', PartNumber = 2\<rparr>]\<rparr>,
            AbortMultipartUpload ''k1'' ''up1'']\<rparr>)"
  by (simp add: controller_defs two_parts_valid empty_world_def backend_rejects_assembly_def)


text \<open>
  Claim C8, as stated: an empty parts list is rejected as a validation failure with no side
  effects. The array rule of the schema has no minimum length, so the empty list passes
  validation and the assembly command with no parts is sent. When the backend rejects it,
  the caller gets the assembly error through \<^verbatim>\<open>next\<close> after an abort, not a 400; when the
  backend resolves it, the row is created.
\<close>

theorem empty_parts_list_not_rejected:
  "b_parts (multipart_body (Val [])) = Val []
   \<and> complete backend_rejects_assembly ''bucket'' ''f1''
        \<lparr>auth_userId = Some ''u1'', body = multipart_body (Val [])\<rparr> empty_world
     = (NextError (Error ''Multipart upload failed and aborted: assembly failed''),
        empty_world\<lparr>s3_sent :=
           [CompleteMultipartUpload \<lparr>Bucket = ''bucket'', Key = ''k1'', UploadId = ''up1'', Parts = []\<rparr>,
            AbortMultipartUpload ''k1'' ''up1'']\<rparr>)
   \<and> complete backend_ok ''bucket'' ''f1''
        \<lparr>auth_userId = Some ''u1'', body = multipart_body (Val [])\<rparr> empty_world
     = (Status201 uploaded_row,
        empty_world\<lparr>files := [uploaded_row],
              activities := [\<lparr>act_type = ''FILE_UPLOADED'', act_message = ''File uploaded: a.pdf'',
                     act_userId = Some ''u1'', act_fileId = Some ''f1'', act_size = 1024\<rparr>],
              objects := [''k1''],
              s3_sent := [CompleteMultipartUpload
                            \<lparr>Bucket = ''bucket'', Key = ''k1'', UploadId = ''up1'', Parts = []\<rparr>]\<rparr>)"
  by (simp only: empty_parts_reach_backend empty_parts_accepted) (simp add: multipart_body_def)

text \<open>
  Claim C8, amended: a multipart request whose \<^verbatim>\<open>parts\<close> is absent, null, not an array, or
  holds an element that is not an object with an integer \<^verbatim>\<open>partNumber\<close> of at least 1 and
  a non-empty string \<^verbatim>\<open>eTag\<close> (and any other request that has a \<^verbatim>\<open>parts\<close> key) is
  answered with status 400 and a non-empty error list, and the state is untouched: nothing
  is sent to the backend and no row is created.
\<close>

theorem malformed_parts_rejected:
  assumes "\<not> parts_accepted (body req)"
  shows "\<exists>errs. errs \<noteq> [] \<and> complete s3 BUCKET new_id req w = (Status400 errs, w)"
  using parts_errors_reported [OF assms]
  by (simp add: complete_def validate_complete_def)

theorem malformed_parts_rejected_witness:
  "\<not> parts_accepted (body \<lparr>auth_userId = Some ''u1'',
                              body = multipart_body (Val [Item (Val (IntegerNum 0)) (Val ''e'')])\<rparr>)
   \<and> (\<exists>errs. errs \<noteq> []
        \<and> complete backend_ok ''bucket'' ''f1''
             \<lparr>auth_userId = Some ''u1'',
              body = multipart_body (Val [Item (Val (IntegerNum 0)) (Val ''e'')])\<rparr> empty_world
            = (Status400 errs, empty_world))"
proof -
  have n: "\<not> parts_accepted (body \<lparr>auth_userId = Some ''u1'',
                              body = multipart_body (Val [Item (Val (IntegerNum 0)) (Val ''e'')])\<rparr>)"
    by (simp add: parts_accepted_def multipart_is_true_def multipart_body_def joi_integer_min_def)
  from n malformed_parts_rejected [OF n, of backend_ok "''bucket''" "''f1''" empty_world]
  show ?thesis by blast
qed




text \<open>
  Claim C6: when the assembly fails, an abort is issued against the same session before
  the error is returned, and a failure of that abort does not mask the assembly error. The
  code on a request whose assembly the backend rejects: when the abort resolves, the
  caller gets the error that carries the message of the assembly error. When the abort
  rejects as well, \<^verbatim>\<open>await abortMultipart(...)\<close> throws out of the inner \<^verbatim>\<open>catch\<close> before
  the new error is built: the abort is issued (twice, the second time by the safety net,
  which drops its error), and \<^verbatim>\<open>next\<close> receives the error of the abort; the assembly
  error does not reach the caller.
\<close>

theorem abort_failure_replaces_assembly_error:
  "complete backend_rejects_all ''bucket'' ''f1''
      \<lparr>auth_userId = Some ''u1'',
       body = multipart_body (Val [Item (Val (IntegerNum 2)) (Val ''e2''),
                                   Item (Val (IntegerNum 1)) (Val ''e1'')])\<rparr> empty_world
     = (NextError (Error ''abort failed''),
        empty_world\<lparr>s3_sent :=
           [CompleteMultipartUpload
              \<lparr>Bucket = ''bucket'', Key = ''k1'', UploadId = ''up1'',
               Parts = [\<lparr>ETag = ''e1'', PartNumber = 1\<rparr>, \<lparr>ETag = ''e2'', PartNumber = 2\<rparr>]\<rparr>,
            AbortMultipartUpload ''k1'' ''up1'', AbortMultipartUpload ''k1'' ''up1'']\<rparr>)
   \<and> complete backend_rejects_assembly ''bucket'' ''f1''
      \<lparr>auth_userId = Some ''u1'',
       body = multipart_body (Val [Item (Val (IntegerNum 2)) (Val ''e2''),
                                   Item (Val (IntegerNum 1)) (Val ''e1'')])\<rparr> empty_world
     = (NextError (Error ''Multipart upload failed and aborted: assembly failed''),
        empty_world\<lparr>s3_sent :=
           [CompleteMultipartUpload
              \<lparr>Bucket = ''bucket'', Key = ''k1'', UploadId = ''up1'',
               Parts = [\<lparr>ETag = ''e1'', PartNumber = 1\<rparr>, \<lparr>ETag = ''e2'', PartNumber = 2\<rparr>]\<rparr>,
            AbortMultipartUpload ''k1'' ''up1'']\<rparr>)"
  by (simp only: abort_failure_masks abort_success_keeps_error)

end
